theory Spec2Isabelle
  imports Complex_Main "HOL-Library.Sublist"
begin

text \<open>
  A polling command relay: script clients post commands to \<open>POST /api/command\<close>, other
  clients poll \<open>GET /api/commands\<close>, and a timer cleans the log every five minutes. Two
  variants are embedded: the role-aware server (\<open>backend_server.js\<close>: a user registry, admins
  and alts) and the legacy flat variant (coordinated commands with \<open>targetAlts\<close>).

  Each handler is a function of the configuration, of the instant \<open>Date.now()\<close> returns
  while it runs, of the request and of the state; it returns the answer and the new state.
  An exception caught by the handler's \<open>try\<close> is the answer \<open>InternalServerError\<close>, with
  the state as the statements before the throw left it. Of the logging, only what can throw
  is modelled: a template literal converts its values to strings, \<open>console.log\<close> of a value
  does not.
\<close>

section \<open>JSON values as the handlers see them\<close>

text \<open>
  Every field of a request is a parsed JSON value or is absent (\<open>undefined\<close>).
  JSON numbers are modelled by the integers. An object is the association list of its
  own properties, read with \<open>map_of\<close>: a parsed object has each key once.
\<close>

datatype jsval =
    JUndefined
  | JNull
  | JBool bool
  | JNum int
  | JStr string
  | JArr "jsval list"
  | JObj "(string \<times> jsval) list"

text \<open>JavaScript's ToBoolean, used by \<open>!x\<close>, \<open>x || y\<close>, \<open>x && y\<close> and \<open>if (x)\<close>.\<close>

fun truthy :: "jsval \<Rightarrow> bool" where
  "truthy JUndefined = False"
| "truthy JNull = False"
| "truthy (JBool b) = b"
| "truthy (JNum n) = (n \<noteq> 0)"
| "truthy (JStr s) = (s \<noteq> [])"
| "truthy (JArr xs) = True"
| "truthy (JObj kvs) = True"

definition js_or :: "jsval \<Rightarrow> jsval \<Rightarrow> jsval" where
  "js_or a b = (if truthy a then a else b)"

text \<open>
  \<open>===\<close>, and the SameValueZero comparison of \<open>Map\<close> and \<open>Set\<close> (the two agree, there
  being neither NaN nor a negative zero among JSON values). Arrays and objects are compared
  by reference; the two operands always stem from two different parses, so they are
  never the same reference.
\<close>

fun strict_eq :: "jsval \<Rightarrow> jsval \<Rightarrow> bool" where
  "strict_eq JUndefined JUndefined = True"
| "strict_eq JNull JNull = True"
| "strict_eq (JBool a) (JBool b) = (a = b)"
| "strict_eq (JNum a) (JNum b) = (a = b)"
| "strict_eq (JStr a) (JStr b) = (a = b)"
| "strict_eq a b = False"

text \<open>
  Reading a property \<open>v.k\<close> or \<open>v[k]\<close>. On \<open>undefined\<close> and \<open>null\<close> the read throws a
  TypeError (\<open>None\<close>). The handlers only read the keys \<open>isAuthorized\<close>, \<open>target\<close>,
  \<open>targetAlts\<close> and the six allowed keys, none of which is inherited from a prototype, so
  every value that is not an object answers \<open>undefined\<close>.
\<close>

fun property :: "jsval \<Rightarrow> string \<Rightarrow> jsval option" where
  "property JUndefined k = None"
| "property JNull k = None"
| "property (JObj kvs) k = Some (case map_of kvs k of None \<Rightarrow> JUndefined | Some v \<Rightarrow> v)"
| "property v k = Some JUndefined"

text \<open>
  A template literal \<open>`${v}`\<close> converts \<open>v\<close> to a string. For a parsed object that has an
  own property \<open>toString\<close> (never callable, coming from JSON) the conversion throws a
  TypeError; an array joins the conversions of its elements, skipping \<open>null\<close>.
\<close>

fun to_string_throws :: "jsval \<Rightarrow> bool" where
  "to_string_throws (JObj kvs) = (map_of kvs ''toString'' \<noteq> None)"
| "to_string_throws (JArr xs) = list_ex to_string_throws xs"
| "to_string_throws v = False"

text \<open>
  The client's \<open>timestamp\<close> is stored as it comes, whatever JSON value it is, and is only
  ever read by \<open>cmd.timestamp < n\<close> and \<open>cmd.timestamp > n\<close> with \<open>n\<close> an instant. Such a
  comparison converts the left operand to a number value: NaN, an infinity, or a real.
\<close>

datatype jsnum =
    NaN
  | NegInfinity
  | Finite real
  | PosInfinity

text \<open>Every comparison with NaN is false.\<close>

fun num_lt :: "jsnum \<Rightarrow> int \<Rightarrow> bool" where
  "num_lt NaN c = False"
| "num_lt NegInfinity c = True"
| "num_lt (Finite x) c = (x < of_int c)"
| "num_lt PosInfinity c = False"

fun num_gt :: "jsnum \<Rightarrow> int \<Rightarrow> bool" where
  "num_gt NaN c = False"
| "num_gt NegInfinity c = False"
| "num_gt (Finite x) c = (x > of_int c)"
| "num_gt PosInfinity c = True"

text \<open>
  ToNumber, after ToPrimitive with hint number. An absent value is NaN, \<open>null\<close> is 0, a
  boolean 0 or 1. An object or array is first converted to a string, which throws a
  TypeError (\<open>None\<close>) exactly when the template literal's conversion does; an object that
  converts gives \<open>[object Object]\<close>, which is NaN. What number a string holds, and the string
  an array joins to, is the language's own reading (white space, signs, exponents,
  \<open>Infinity\<close>, rounding to a double): it is the parameter \<open>conv\<close>, consulted for strings and
  arrays only, and every statement below holds whatever that reading is.
\<close>

fun ToNumber :: "(jsval \<Rightarrow> jsnum) \<Rightarrow> jsval \<Rightarrow> jsnum option" where
  "ToNumber conv JUndefined = Some NaN"
| "ToNumber conv JNull = Some (Finite 0)"
| "ToNumber conv (JBool b) = Some (Finite (if b then 1 else 0))"
| "ToNumber conv (JNum n) = Some (Finite (of_int n))"
| "ToNumber conv (JStr s) = Some (conv (JStr s))"
| "ToNumber conv (JArr xs) = (if to_string_throws (JArr xs) then None else Some (conv (JArr xs)))"
| "ToNumber conv (JObj kvs) = (if to_string_throws (JObj kvs) then None else Some NaN)"

definition js_lt :: "(jsval \<Rightarrow> jsnum) \<Rightarrow> jsval \<Rightarrow> int \<Rightarrow> bool option" where
  "js_lt conv v c = map_option (\<lambda>x. num_lt x c) (ToNumber conv v)"

definition js_gt :: "(jsval \<Rightarrow> jsnum) \<Rightarrow> jsval \<Rightarrow> int \<Rightarrow> bool option" where
  "js_gt conv v c = map_option (\<lambda>x. num_gt x c) (ToNumber conv v)"

text \<open>\<open>Map\<close> and \<open>Set\<close> keep insertion order and compare keys by SameValueZero.\<close>

fun map_get :: "(jsval \<times> 'v) list \<Rightarrow> jsval \<Rightarrow> 'v option" where
  "map_get [] k = None"
| "map_get ((k', v) # m) k = (if strict_eq k' k then Some v else map_get m k)"

fun map_set :: "jsval \<Rightarrow> 'v \<Rightarrow> (jsval \<times> 'v) list \<Rightarrow> (jsval \<times> 'v) list" where
  "map_set k v [] = [(k, v)]"
| "map_set k v ((k', v') # m) =
     (if strict_eq k' k then (k', v) # m else (k', v') # map_set k v m)"

definition set_has :: "jsval list \<Rightarrow> jsval \<Rightarrow> bool" where
  "set_has xs x = list_ex (\<lambda>y. strict_eq y x) xs"

definition set_add :: "jsval \<Rightarrow> jsval list \<Rightarrow> jsval list" where
  "set_add x xs = (if set_has xs x then xs else xs @ [x])"

section \<open>Requests, records and configuration\<close>

text \<open>The fields destructured from \<open>req.body\<close>.\<close>

record body =
  scriptId :: jsval
  playerId :: jsval
  playerName :: jsval
  command :: jsval
  args :: jsval
  timestamp :: jsval

text \<open>A POST request: the body's fields, \<open>req.body.apiKey\<close> and \<open>req.query.apiKey\<close>.\<close>

record request = body +
  apiKey :: jsval
  query_apiKey :: jsval

text \<open>
  What both variants store of a command. \<open>cmd_id\<close> is the instant whose decimal print
  is the record's \<open>id\<close>, \<open>createdAt\<close> the instant whose ISO print is \<open>createdAt\<close>.
\<close>

record entry = body +
  cmd_id :: int
  createdAt :: int

record commandObj = entry +
  isAdminCommand :: bool
  targetAlts :: jsval

record legacy_commandObj = entry +
  isCoordinated :: bool

record user =
  user_scriptId :: jsval
  user_playerId :: jsval
  user_playerName :: jsval
  user_isAuthorized :: jsval
  user_timestamp :: int

record state =
  commands :: "commandObj list"
  registeredUsers :: "(jsval \<times> user) list"
  authorizedUsers :: "jsval list"

record config =
  env_API_KEY :: "string option"
  env_REQUIRE_API_KEY :: "string option"

definition API_KEY :: "config \<Rightarrow> jsval" where
  "API_KEY cfg = js_or (case env_API_KEY cfg of None \<Rightarrow> JUndefined | Some k \<Rightarrow> JStr k) JNull"

definition REQUIRE_API_KEY :: "config \<Rightarrow> bool" where
  "REQUIRE_API_KEY cfg = (env_REQUIRE_API_KEY cfg = Some ''true'')"

definition validateApiKey :: "config \<Rightarrow> jsval \<Rightarrow> jsval \<Rightarrow> bool" where
  "validateApiKey cfg body_key query_key =
     (if \<not> REQUIRE_API_KEY cfg \<or> \<not> truthy (API_KEY cfg) then True
      else strict_eq (js_or body_key query_key) (API_KEY cfg))"

datatype 'c response =
    InvalidApiKey
  | MissingFields
  | InvalidCoordinated
  | InternalServerError
  | UserRegistered jsval
  | AdminDistributed int
  | CommandReceived int
  | CoordinatedReceived int
  | Commands "'c list"

section \<open>The allow list\<close>

definition allowedKeys :: "string list" where
  "allowedKeys = [''command'', ''args'', ''targetAlts'', ''mainUser'', ''commandId'', ''timestamp'']"

definition sanitizeCommandData :: "jsval \<Rightarrow> jsval" where
  "sanitizeCommandData data =
     (if \<not> truthy data then JObj []
      else JObj (concat (map (\<lambda>key. case property data key of
                                       None \<Rightarrow> []
                                     | Some v \<Rightarrow> if v \<noteq> JUndefined then [(key, v)] else [])
                             allowedKeys)))"

text \<open>\<open>typeof v === 'object'\<close>: objects, arrays and \<open>null\<close>.\<close>

fun typeof_object :: "jsval \<Rightarrow> bool" where
  "typeof_object (JObj kvs) = True"
| "typeof_object (JArr xs) = True"
| "typeof_object JNull = True"
| "typeof_object v = False"

definition validateCoordinatedCommand :: "jsval \<Rightarrow> bool" where
  "validateCoordinatedCommand data =
     (if \<not> truthy data \<or> \<not> typeof_object data then False
      else case property data ''command'' of
             None \<Rightarrow> False
           | Some v \<Rightarrow> if \<not> truthy v then False else True)"

section \<open>The role-aware server\<close>

text \<open>\<open>commands.slice(-100)\<close> when more than 100 records are held.\<close>

definition trim :: "'a list \<Rightarrow> 'a list" where
  "trim cs = (if length cs > 100 then drop (length cs - 100) cs else cs)"

definition admin_commandObj :: "int \<Rightarrow> request \<Rightarrow> commandObj" where
  "admin_commandObj now req =
     \<lparr>scriptId = scriptId req, playerId = playerId req, playerName = playerName req,
      command = command req, args = js_or (args req) (JObj []), timestamp = timestamp req,
      cmd_id = now, createdAt = now, isAdminCommand = True, targetAlts = JStr ''all''\<rparr>"

definition alt_commandObj :: "int \<Rightarrow> request \<Rightarrow> commandObj" where
  "alt_commandObj now req =
     \<lparr>scriptId = scriptId req, playerId = playerId req, playerName = playerName req,
      command = command req, args = js_or (args req) (JObj []), timestamp = timestamp req,
      cmd_id = now, createdAt = now, isAdminCommand = False, targetAlts = JUndefined\<rparr>"

text \<open>The object that \<open>registeredUsers.set\<close> stores for the sender.\<close>

definition registry_entry :: "int \<Rightarrow> request \<Rightarrow> jsval \<Rightarrow> user" where
  "registry_entry now req auth =
     \<lparr>user_scriptId = scriptId req, user_playerId = playerId req,
      user_playerName = playerName req, user_isAuthorized = auth, user_timestamp = now\<rparr>"

text \<open>
  The registration branch. \<open>userData.isAuthorized\<close> is evaluated while the registry entry is
  built, before \<open>registeredUsers.set\<close> runs; the log line with \<open>${playerName}\<close> and
  \<open>${playerId}\<close> comes after both structures are written.
\<close>

definition register :: "int \<Rightarrow> request \<Rightarrow> state \<Rightarrow> commandObj response \<times> state" where
  "register now req s =
     (case property (args req) ''isAuthorized'' of
        None \<Rightarrow> (InternalServerError, s)
      | Some auth \<Rightarrow>
          let s1 = s\<lparr>registeredUsers :=
                       map_set (playerId req) (registry_entry now req auth) (registeredUsers s)\<rparr>;
              s2 = (if truthy auth
                    then s1\<lparr>authorizedUsers := set_add (playerName req) (authorizedUsers s1)\<rparr>
                    else s1)
          in if to_string_throws (playerName req) \<or> to_string_throws (playerId req)
             then (InternalServerError, s2)
             else (UserRegistered auth, s2))"

text \<open>
  The handler of \<open>POST /api/command\<close>. In the admin branch the first log line, which
  converts \<open>command\<close> and \<open>playerName\<close>, comes before the push; in the alt branch the
  only such line comes after the push and before the answer. The trim is the handler's last
  statement.
\<close>

definition post_command :: "config \<Rightarrow> int \<Rightarrow> request \<Rightarrow> state \<Rightarrow> commandObj response \<times> state" where
  "post_command cfg now req s =
     (if \<not> validateApiKey cfg (apiKey req) (query_apiKey req) then (InvalidApiKey, s)
      else if \<not> truthy (scriptId req) \<or> \<not> truthy (playerId req) \<or> \<not> truthy (command req)
      then (MissingFields, s)
      else if strict_eq (command req) (JStr ''register'') then register now req s
      else if set_has (authorizedUsers s) (playerName req) then
        (if to_string_throws (command req) \<or> to_string_throws (playerName req)
         then (InternalServerError, s)
         else let c = admin_commandObj now req;
                  s1 = s\<lparr>commands := commands s @ [c]\<rparr>
              in (AdminDistributed (cmd_id c), s1\<lparr>commands := trim (commands s1)\<rparr>))
      else
        (let c = alt_commandObj now req;
             s1 = s\<lparr>commands := commands s @ [c]\<rparr>
         in if to_string_throws (command req) \<or> to_string_throws (playerName req)
                 \<or> to_string_throws (playerId req)
            then (InternalServerError, s1)
            else (CommandReceived (cmd_id c), s1\<lparr>commands := trim (commands s1)\<rparr>)))"

text \<open>
  The callback of \<open>commands.filter\<close> in the poll handler. The comparison of the timestamp
  can throw (\<open>None\<close>). \<open>cmd.args.target\<close> is read only when \<open>cmd.args\<close> is truthy, so that
  read cannot throw.
\<close>

definition visible ::
  "(jsval \<Rightarrow> jsnum) \<Rightarrow> int \<Rightarrow> jsval \<Rightarrow> jsval \<Rightarrow> jsval \<Rightarrow> jsval \<Rightarrow> commandObj \<Rightarrow> bool option" where
  "visible conv now sid pid isCurrentUserAdmin currentUserName cmd =
     (if \<not> strict_eq (scriptId cmd) sid \<or> strict_eq (playerId cmd) pid then Some False
      else case js_lt conv (timestamp cmd) (now - 30000) of
        None \<Rightarrow> None
      | Some old \<Rightarrow>
          if old then Some False
          else if isAdminCommand cmd then
            (if truthy isCurrentUserAdmin then Some False
             else case (if truthy (args cmd) then property (args cmd) ''target''
                        else Some (args cmd)) of
                    None \<Rightarrow> None
                  | Some target \<Rightarrow>
                      if truthy target
                      then Some (strict_eq target currentUserName \<or> strict_eq target pid)
                      else Some True)
          else if \<not> isAdminCommand cmd \<and> truthy isCurrentUserAdmin then Some True
          else Some False)"

text \<open>
  The handler of \<open>GET /api/commands\<close> for the query \<open>(scriptId, playerId)\<close>. A callback that
  throws ends the filter; the handler's \<open>catch\<close> answers 500.
\<close>

definition get_commands ::
  "(jsval \<Rightarrow> jsnum) \<Rightarrow> config \<Rightarrow> int \<Rightarrow> jsval \<Rightarrow> jsval \<Rightarrow> jsval \<Rightarrow> jsval \<Rightarrow> state
     \<Rightarrow> commandObj response" where
  "get_commands conv cfg now body_key query_key sid pid s =
     (if \<not> validateApiKey cfg body_key query_key then InvalidApiKey
      else if \<not> truthy sid \<or> \<not> truthy pid then MissingFields
      else let currentUser = map_get (registeredUsers s) pid;
               isCurrentUserAdmin = (case currentUser of None \<Rightarrow> JBool False
                                                       | Some u \<Rightarrow> user_isAuthorized u);
               currentUserName = (case currentUser of None \<Rightarrow> JNull
                                                    | Some u \<Rightarrow> user_playerName u)
           in if list_ex (\<lambda>cmd. visible conv now sid pid isCurrentUserAdmin currentUserName cmd
                                   = None) (commands s)
              then InternalServerError
              else Commands (filter (\<lambda>cmd. visible conv now sid pid isCurrentUserAdmin
                                              currentUserName cmd = Some True)
                               (commands s)))"

text \<open>
  The callback of \<open>setInterval\<close>, run at instant \<open>now\<close>. It has no \<open>try\<close>: when a comparison
  throws, the filter ends with the exception, \<open>commands\<close> is not assigned (\<open>None\<close>) and
  nothing catches the TypeError.
\<close>

definition cleanup :: "(jsval \<Rightarrow> jsnum) \<Rightarrow> int \<Rightarrow> state \<Rightarrow> state option" where
  "cleanup conv now s =
     (if list_ex (\<lambda>cmd. js_gt conv (timestamp cmd) (now - 300000) = None) (commands s)
      then None
      else Some (s\<lparr>commands := filter (\<lambda>cmd. js_gt conv (timestamp cmd) (now - 300000)
                                               = Some True) (commands s)\<rparr>))"

section \<open>Runs of the role-aware server\<close>

text \<open>
  What reaches the shared state: a command submission, a poll, or the periodic cleanup,
  each at its instant. A poll answers from the state and leaves it as it is, and so do the
  remaining endpoints (status, users, root), which only read. A cleanup that throws leaves
  the state as it is. \<open>connectedClients\<close> is never written and is left out of the state.
\<close>

datatype event =
    Post int request
  | Poll int jsval jsval jsval jsval
  | Cleanup int

fun step :: "(jsval \<Rightarrow> jsnum) \<Rightarrow> config \<Rightarrow> state \<Rightarrow> event \<Rightarrow> state" where
  "step conv cfg s (Post now req) = snd (post_command cfg now req s)"
| "step conv cfg s (Poll now body_key query_key sid pid) = s"
| "step conv cfg s (Cleanup now) = (case cleanup conv now s of None \<Rightarrow> s | Some s' \<Rightarrow> s')"

definition run :: "(jsval \<Rightarrow> jsnum) \<Rightarrow> config \<Rightarrow> state \<Rightarrow> event list \<Rightarrow> state" where
  "run conv cfg s evs = foldl (step conv cfg) s evs"

definition initial :: state where
  "initial = \<lparr>commands = [], registeredUsers = [], authorizedUsers = []\<rparr>"

section \<open>The legacy flat variant\<close>

text \<open>Its only state is the command list.\<close>

definition coordinated_commandObj :: "int \<Rightarrow> request \<Rightarrow> jsval \<Rightarrow> legacy_commandObj" where
  "coordinated_commandObj now req coordinatedData =
     \<lparr>scriptId = scriptId req, playerId = playerId req, playerName = playerName req,
      command = JStr ''coordinated'', args = coordinatedData, timestamp = timestamp req,
      cmd_id = now, createdAt = now, isCoordinated = True\<rparr>"

definition regular_commandObj :: "int \<Rightarrow> request \<Rightarrow> legacy_commandObj" where
  "regular_commandObj now req =
     \<lparr>scriptId = scriptId req, playerId = playerId req, playerName = playerName req,
      command = command req, args = js_or (args req) (JObj []), timestamp = timestamp req,
      cmd_id = now, createdAt = now, isCoordinated = False\<rparr>"

definition legacy_post_command ::
  "config \<Rightarrow> int \<Rightarrow> request \<Rightarrow> legacy_commandObj list
     \<Rightarrow> legacy_commandObj response \<times> legacy_commandObj list" where
  "legacy_post_command cfg now req cs =
     (if \<not> validateApiKey cfg (apiKey req) (query_apiKey req) then (InvalidApiKey, cs)
      else if \<not> truthy (scriptId req) \<or> \<not> truthy (playerId req) \<or> \<not> truthy (command req)
      then (MissingFields, cs)
      else if strict_eq (command req) (JStr ''coordinated'') then
        (let coordinatedData = sanitizeCommandData (args req)
         in if \<not> validateCoordinatedCommand coordinatedData then (InvalidCoordinated, cs)
            else let c = coordinated_commandObj now req coordinatedData;
                     cs1 = cs @ [c]
                 in case (property coordinatedData ''command'',
                          property coordinatedData ''targetAlts'') of
                      (Some cmd, Some tgt) \<Rightarrow>
                        if to_string_throws cmd \<or> to_string_throws (playerName req)
                             \<or> to_string_throws (playerId req)
                             \<or> to_string_throws (js_or tgt (JStr ''all''))
                        then (InternalServerError, cs1)
                        else (CoordinatedReceived (cmd_id c), trim cs1)
                    | _ \<Rightarrow> (InternalServerError, cs1))
      else
        (let c = regular_commandObj now req;
             cs1 = cs @ [c]
         in if to_string_throws (command req) \<or> to_string_throws (playerName req)
                 \<or> to_string_throws (playerId req)
            then (InternalServerError, cs1)
            else (CommandReceived (cmd_id c), trim cs1)))"

text \<open>
  The callback of the legacy \<open>commands.filter\<close>. The comparison of the timestamp can throw,
  and \<open>cmd.args.targetAlts\<close> is read with no guard on \<open>cmd.args\<close>, so that read can throw
  too (\<open>None\<close>); the handler then answers 500.
\<close>

definition legacy_visible ::
  "(jsval \<Rightarrow> jsnum) \<Rightarrow> int \<Rightarrow> jsval \<Rightarrow> jsval \<Rightarrow> legacy_commandObj \<Rightarrow> bool option" where
  "legacy_visible conv now sid pid cmd =
     (if \<not> strict_eq (scriptId cmd) sid \<or> strict_eq (playerId cmd) pid then Some False
      else case js_lt conv (timestamp cmd) (now - 30000) of
        None \<Rightarrow> None
      | Some old \<Rightarrow>
          if old then Some False
          else if isCoordinated cmd then
            (case property (args cmd) ''targetAlts'' of
               None \<Rightarrow> None
             | Some tgt \<Rightarrow>
                 if truthy tgt \<and> \<not> strict_eq tgt (JStr ''all'') \<and> \<not> strict_eq tgt pid
                 then Some False
                 else Some True)
          else Some True)"

definition legacy_get_commands ::
  "(jsval \<Rightarrow> jsnum) \<Rightarrow> config \<Rightarrow> int \<Rightarrow> jsval \<Rightarrow> jsval \<Rightarrow> jsval \<Rightarrow> jsval \<Rightarrow> legacy_commandObj list
     \<Rightarrow> legacy_commandObj response" where
  "legacy_get_commands conv cfg now body_key query_key sid pid cs =
     (if \<not> validateApiKey cfg body_key query_key then InvalidApiKey
      else if \<not> truthy sid \<or> \<not> truthy pid then MissingFields
      else if list_ex (\<lambda>cmd. legacy_visible conv now sid pid cmd = None) cs
      then InternalServerError
      else Commands (filter (\<lambda>cmd. legacy_visible conv now sid pid cmd = Some True) cs))"

text \<open>The legacy timer callback, the same statement with the same missing \<open>try\<close>.\<close>

definition legacy_cleanup ::
  "(jsval \<Rightarrow> jsnum) \<Rightarrow> int \<Rightarrow> legacy_commandObj list \<Rightarrow> legacy_commandObj list option" where
  "legacy_cleanup conv now cs =
     (if list_ex (\<lambda>cmd. js_gt conv (timestamp cmd) (now - 300000) = None) cs then None
      else Some (filter (\<lambda>cmd. js_gt conv (timestamp cmd) (now - 300000) = Some True) cs))"

text \<open>A sequence of submissions to the legacy variant, each at its instant.\<close>

definition legacy_run ::
  "config \<Rightarrow> legacy_commandObj list \<Rightarrow> (int \<times> request) list \<Rightarrow> legacy_commandObj list" where
  "legacy_run cfg cs ps = foldl (\<lambda>cs (now, req). snd (legacy_post_command cfg now req cs)) cs ps"

section \<open>The specification's vocabulary\<close>

text \<open>
  The tests every filter callback starts with: same script, not the poller's own record,
  and not rejected by the 30-second comparison.
\<close>

definition base_tests ::
  "(jsval \<Rightarrow> jsnum) \<Rightarrow> int \<Rightarrow> jsval \<Rightarrow> jsval \<Rightarrow> 'a body_scheme \<Rightarrow> bool" where
  "base_tests conv now sid pid cmd =
     (strict_eq (scriptId cmd) sid \<and> \<not> strict_eq (playerId cmd) pid
      \<and> js_lt conv (timestamp cmd) (now - 30000) = Some False)"

text \<open>
  The role-target rule as the specification words it. The poller is an admin when the
  registry holds an entry for its id whose \<open>isAuthorized\<close> is truthy; an unregistered
  poller is no admin and has no display name. A record carries an explicit target when
  \<open>args.target\<close> is truthy.
\<close>

definition poller_is_admin :: "state \<Rightarrow> jsval \<Rightarrow> bool" where
  "poller_is_admin s pid =
     (case map_get (registeredUsers s) pid of
        None \<Rightarrow> False
      | Some u \<Rightarrow> truthy (user_isAuthorized u))"

definition poller_named :: "state \<Rightarrow> jsval \<Rightarrow> jsval \<Rightarrow> bool" where
  "poller_named s pid n =
     (case map_get (registeredUsers s) pid of
        None \<Rightarrow> False
      | Some u \<Rightarrow> strict_eq n (user_playerName u))"

definition explicit_target :: "commandObj \<Rightarrow> jsval option" where
  "explicit_target cmd =
     (case property (args cmd) ''target'' of
        None \<Rightarrow> None
      | Some t \<Rightarrow> if truthy t then Some t else None)"

definition role_target_rule :: "state \<Rightarrow> jsval \<Rightarrow> commandObj \<Rightarrow> bool" where
  "role_target_rule s pid cmd =
     (if isAdminCommand cmd then
        (if poller_is_admin s pid then False
         else case explicit_target cmd of
                Some t \<Rightarrow> poller_named s pid t \<or> strict_eq t pid
              | None \<Rightarrow> True)
      else poller_is_admin s pid)"

text \<open>
  The addressing of the legacy variant as the specification words it: a coordinated
  record with a truthy \<open>targetAlts\<close> is for \<open>all\<close> or for the poller it names; every other
  record is for everyone.
\<close>

definition legacy_target_rule :: "jsval \<Rightarrow> legacy_commandObj \<Rightarrow> bool" where
  "legacy_target_rule pid cmd =
     (if isCoordinated cmd then
        (case property (args cmd) ''targetAlts'' of
           None \<Rightarrow> False
         | Some t \<Rightarrow> (if truthy t then strict_eq t (JStr ''all'') \<or> strict_eq t pid else True))
      else True)"

text \<open>The keys of a stored \<open>args\<close> mapping.\<close>

definition own_keys :: "jsval \<Rightarrow> string set" where
  "own_keys v = (case v of JObj kvs \<Rightarrow> set (map fst kvs) | _ \<Rightarrow> {})"

text \<open>A submission is stored and acknowledged: one of the three success answers.\<close>

definition stored :: "'c response \<Rightarrow> bool" where
  "stored r =
     (case r of
        AdminDistributed i \<Rightarrow> True
      | CommandReceived i \<Rightarrow> True
      | CoordinatedReceived i \<Rightarrow> True
      | _ \<Rightarrow> False)"

text \<open>
  A request that passes every check of the role-aware handler and is not a registration.
\<close>

definition acceptable :: "config \<Rightarrow> request \<Rightarrow> bool" where
  "acceptable cfg req =
     (validateApiKey cfg (apiKey req) (query_apiKey req)
      \<and> truthy (scriptId req) \<and> truthy (playerId req) \<and> truthy (command req)
      \<and> \<not> strict_eq (command req) (JStr ''register'')
      \<and> \<not> to_string_throws (command req) \<and> \<not> to_string_throws (playerName req)
      \<and> \<not> to_string_throws (playerId req))"

text \<open>
  Record \<open>c\<close> is what the submission \<open>req\<close>, arriving at instant \<open>now\<close> in state \<open>s\<close>,
  writes: one of the two object literals of the handler, its flag being the membership of
  the submitted name in the authorized-name set of \<open>s\<close>.
\<close>

definition written :: "state \<Rightarrow> int \<Rightarrow> request \<Rightarrow> commandObj \<Rightarrow> bool" where
  "written s now req c =
     (\<not> strict_eq (command req) (JStr ''register'')
      \<and> (c = admin_commandObj now req \<or> c = alt_commandObj now req)
      \<and> isAdminCommand c = set_has (authorizedUsers s) (playerName req))"

text \<open>
  Sequences of submissions, each with its instant: the events they are, whether every one
  of them is stored, and the records they append.
\<close>

definition post_events :: "(int \<times> request) list \<Rightarrow> event list" where
  "post_events ps = map (\<lambda>(now, req). Post now req) ps"

fun all_stored :: "config \<Rightarrow> state \<Rightarrow> (int \<times> request) list \<Rightarrow> bool" where
  "all_stored cfg s [] = True"
| "all_stored cfg s ((now, req) # ps) =
     (stored (fst (post_command cfg now req s))
      \<and> all_stored cfg (snd (post_command cfg now req s)) ps)"

definition appended :: "state \<Rightarrow> (int \<times> request) list \<Rightarrow> commandObj list" where
  "appended s ps =
     map (\<lambda>(now, req). if set_has (authorizedUsers s) (playerName req)
                         then admin_commandObj now req else alt_commandObj now req) ps"

fun legacy_all_stored :: "config \<Rightarrow> legacy_commandObj list \<Rightarrow> (int \<times> request) list \<Rightarrow> bool" where
  "legacy_all_stored cfg cs [] = True"
| "legacy_all_stored cfg cs ((now, req) # ps) =
     (stored (fst (legacy_post_command cfg now req cs))
      \<and> legacy_all_stored cfg (snd (legacy_post_command cfg now req cs)) ps)"

definition legacy_appended :: "(int \<times> request) list \<Rightarrow> legacy_commandObj list" where
  "legacy_appended ps =
     map (\<lambda>(now, req). if strict_eq (command req) (JStr ''coordinated'')
                         then coordinated_commandObj now req (sanitizeCommandData (args req))
                         else regular_commandObj now req) ps"

section \<open>Example requests\<close>

text \<open>
  The scenario of the specification: script \<open>s1\<close>, admin \<open>A\<close> named \<open>Admin1\<close>, and no API
  key configured.
\<close>

definition cfg_open :: config where
  "cfg_open = \<lparr>env_API_KEY = None, env_REQUIRE_API_KEY = None\<rparr>"

definition submission :: "string \<Rightarrow> string \<Rightarrow> string \<Rightarrow> jsval \<Rightarrow> jsval \<Rightarrow> request" where
  "submission pid name cmd a t =
     \<lparr>scriptId = JStr ''s1'', playerId = JStr pid, playerName = JStr name,
      command = JStr cmd, args = a, timestamp = t,
      apiKey = JUndefined, query_apiKey = JUndefined\<rparr>"

definition register_admin :: request where
  "register_admin =
     submission ''A'' ''Admin1'' ''register'' (JObj [(''isAuthorized'', JBool True)]) (JNum 0)"

text \<open>A second id registers under the admin's name, not authorized.\<close>

definition register_namesake :: request where
  "register_namesake =
     submission ''C'' ''Admin1'' ''register'' (JObj [(''isAuthorized'', JBool False)]) (JNum 2000)"

definition bring :: "jsval \<Rightarrow> request" where
  "bring t = submission ''A'' ''Admin1'' ''bring'' JUndefined t"

definition say_tagged :: request where
  "say_tagged = submission ''B'' ''Alt1'' ''say'' (JObj [(''evil'', JNum 1)]) (JNum 1000)"

definition coordinated_tagged :: request where
  "coordinated_tagged =
     submission ''B'' ''Alt1'' ''coordinated''
       (JObj [(''command'', JStr ''follow''), (''evil'', JNum 1)]) (JNum 1000)"

text \<open>
  Two submissions that pass validation and make a later statement throw: one whose
  \<open>command\<close> is an object with an own \<open>toString\<close> property, one whose \<open>timestamp\<close> is.
\<close>

definition say_unprintable :: request where
  "say_unprintable = say_tagged\<lparr>command := JObj [(''toString'', JNum 1)]\<rparr>"

definition say_unreadable :: request where
  "say_unreadable =
     submission ''D'' ''Alt2'' ''say'' JUndefined (JObj [(''toString'', JNum 1)])"

text \<open>A reading of strings that finds no number in any; the examples never consult it.\<close>

definition no_numbers :: "jsval \<Rightarrow> jsnum" where
  "no_numbers v = NaN"

text \<open>The state after \<open>A\<close> has registered as an admin.\<close>

definition admin_registered :: state where
  "admin_registered =
     \<lparr>commands = [],
      registeredUsers = [(JStr ''A'', registry_entry 0 register_admin (JBool True))],
      authorizedUsers = [JStr ''Admin1'']\<rparr>"

text \<open>
  The admin's \<open>bring\<close> with timestamp \<open>t\<close>, followed in the log by \<open>D\<close>'s submission with
  the unreadable timestamp: the state of the role-aware server and the legacy log.
\<close>

definition beside_unreadable :: "jsval \<Rightarrow> state" where
  "beside_unreadable t =
     admin_registered\<lparr>commands := [admin_commandObj 1000 (bring t),
                                    alt_commandObj 1500 say_unreadable]\<rparr>"

definition legacy_beside_unreadable :: "jsval \<Rightarrow> legacy_commandObj list" where
  "legacy_beside_unreadable t =
     [regular_commandObj 1000 (bring t), regular_commandObj 1500 say_unreadable]"

section \<open>Basic facts\<close>

lemmas handler_defs =
  post_command_def register_def registry_entry_def validateApiKey_def REQUIRE_API_KEY_def
  API_KEY_def js_or_def set_has_def set_add_def admin_commandObj_def alt_commandObj_def trim_def
  get_commands_def visible_def cleanup_def run_def initial_def stored_def js_lt_def js_gt_def

lemmas legacy_defs =
  legacy_post_command_def legacy_get_commands_def legacy_visible_def legacy_cleanup_def
  legacy_run_def coordinated_commandObj_def regular_commandObj_def sanitizeCommandData_def
  validateCoordinatedCommand_def allowedKeys_def

lemmas example_defs =
  cfg_open_def submission_def register_admin_def register_namesake_def bring_def
  say_tagged_def coordinated_tagged_def admin_registered_def say_unprintable_def
  say_unreadable_def no_numbers_def

lemma strict_eq_eq: "strict_eq a b \<Longrightarrow> a = b"
  by (cases a; cases b) auto

lemma truthy_property: "truthy v \<Longrightarrow> \<exists>x. property v k = Some x"
  by (cases v) auto

lemma falsy_property: "\<not> truthy v \<Longrightarrow> property v k = None \<or> property v k = Some JUndefined"
  by (cases v) auto

lemma truthy_not_null: "truthy t \<Longrightarrow> \<not> strict_eq t JNull"
  by (cases t) auto

subsection \<open>Comparisons\<close>

lemma ToNumber_throws: "ToNumber conv v = None \<longleftrightarrow> to_string_throws v"
  by (cases v) auto

lemma js_lt_throws: "js_lt conv v c = None \<longleftrightarrow> to_string_throws v"
  by (simp add: js_lt_def ToNumber_throws)

lemma js_gt_throws: "js_gt conv v c = None \<longleftrightarrow> to_string_throws v"
  by (simp add: js_gt_def ToNumber_throws)

lemma js_gt_not_lt: "js_gt conv v c = Some True \<Longrightarrow> js_lt conv v c = Some False"
proof -
  assume a: "js_gt conv v c = Some True"
  then obtain x where x: "ToNumber conv v = Some x" "num_gt x c"
    by (auto simp: js_gt_def)
  from x(2) have "\<not> num_lt x c"
    by (cases x) auto
  with x(1) show ?thesis
    by (simp add: js_lt_def)
qed

lemma js_lt_undefined: "js_lt conv JUndefined c = Some False"
  by (simp add: js_lt_def)

lemma js_gt_undefined: "js_gt conv JUndefined c = Some False"
  by (simp add: js_gt_def)

subsection \<open>Trimming\<close>

lemma trim_drop: "trim cs = drop (length cs - 100) cs"
  by (simp add: trim_def)

lemma length_trim: "length (trim cs) \<le> 100"
  by (simp add: trim_def)

lemma set_trim: "set (trim cs) \<subseteq> set cs"
  by (simp add: trim_drop set_drop_subset)

lemma last_trim_snoc: "last (trim (cs @ [c])) = c"
  by (simp add: trim_def)

lemma trim_append_trim: "trim (trim cs @ ds) = trim (cs @ ds)"
  by (auto simp: trim_def add.commute)

lemma trim_long_suffix: "length ds \<ge> 100 \<Longrightarrow> trim (cs @ ds) = drop (length ds - 100) ds"
  by (simp add: trim_drop)

subsection \<open>The registry and the authorized-name set\<close>

lemma map_get_map_set_other:
  "\<not> strict_eq k k' \<Longrightarrow> map_get (map_set k v m) k' = map_get m k'"
proof (induction m)
  case Nil
  then show ?case by simp
next
  case (Cons e m)
  obtain k0 v0 where e: "e = (k0, v0)" by (cases e)
  show ?case
  proof (cases "strict_eq k0 k")
    case True
    then have "k0 = k" by (rule strict_eq_eq)
    with Cons.prems e True show ?thesis by simp
  next
    case False
    with Cons e show ?thesis by simp
  qed
qed

lemma set_has_append: "set_has xs n \<Longrightarrow> set_has (xs @ ys) n"
  by (auto simp: set_has_def list_ex_iff)

lemma prefix_set_add: "prefix xs (set_add x xs)"
  by (simp add: set_add_def)

subsection \<open>What a submission does to the state\<close>

lemma register_commands: "commands (snd (register now req s)) = commands s"
  by (simp add: register_def Let_def split: option.splits)

lemma register_effect:
  "snd (register now req s) = s
   \<or> (\<exists>auth. property (args req) ''isAuthorized'' = Some auth
        \<and> snd (register now req s)
            = s\<lparr>registeredUsers := map_set (playerId req) (registry_entry now req auth) (registeredUsers s),
                 authorizedUsers := (if truthy auth then set_add (playerName req) (authorizedUsers s)
                                     else authorizedUsers s)\<rparr>)"
  by (cases "property (args req) ''isAuthorized''") (simp_all add: register_def Let_def)

lemma post_command_cases:
  "snd (post_command cfg now req s) = s
   \<or> strict_eq (command req) (JStr ''register'')
       \<and> snd (post_command cfg now req s) = snd (register now req s)
   \<or> \<not> strict_eq (command req) (JStr ''register'')
       \<and> set_has (authorizedUsers s) (playerName req)
       \<and> snd (post_command cfg now req s)
           = s\<lparr>commands := trim (commands s @ [admin_commandObj now req])\<rparr>
   \<or> \<not> strict_eq (command req) (JStr ''register'')
       \<and> \<not> set_has (authorizedUsers s) (playerName req)
       \<and> (snd (post_command cfg now req s) = s\<lparr>commands := commands s @ [alt_commandObj now req]\<rparr>
           \<or> snd (post_command cfg now req s)
               = s\<lparr>commands := trim (commands s @ [alt_commandObj now req])\<rparr>)"
  by (simp add: post_command_def Let_def)

lemma post_register:
  assumes "strict_eq (command req) (JStr ''register'')"
  shows "snd (post_command cfg now req s) = s
         \<or> snd (post_command cfg now req s) = snd (register now req s)"
  using assms post_command_cases[of cfg now req s] by blast

lemma post_command_stored:
  assumes "stored (fst (post_command cfg now req s))"
  shows "\<exists>c. snd (post_command cfg now req s) = s\<lparr>commands := trim (commands s @ [c])\<rparr>
           \<and> (c = admin_commandObj now req \<and> set_has (authorizedUsers s) (playerName req)
               \<or> c = alt_commandObj now req \<and> \<not> set_has (authorizedUsers s) (playerName req))
           \<and> \<not> strict_eq (command req) (JStr ''register'')"
  using assms
  by (auto simp: post_command_def register_def stored_def Let_def split: if_splits option.splits)

lemma post_command_stored_eq:
  assumes "stored (fst (post_command cfg now req s))"
  shows "snd (post_command cfg now req s) = s\<lparr>commands := trim (commands s @ appended s [(now, req)])\<rparr>"
  using post_command_stored[OF assms] by (auto simp: appended_def)

text \<open>
  A submission can be appended and still be answered with the internal error: in the alt
  branch the record is pushed before the log line that converts \<open>command\<close> to a string, and
  the throw skips the trim.
\<close>

lemma throwing_alt_submission:
  assumes "validateApiKey cfg (apiKey req) (query_apiKey req)"
    and "truthy (scriptId req)" and "truthy (playerId req)" and "truthy (command req)"
    and "\<not> strict_eq (command req) (JStr ''register'')"
    and "\<not> set_has (authorizedUsers s) (playerName req)"
    and "to_string_throws (command req)"
  shows "post_command cfg now req s
         = (InternalServerError, s\<lparr>commands := commands s @ [alt_commandObj now req]\<rparr>)"
  using assms by (simp add: post_command_def Let_def)

lemma acceptable_stored:
  assumes "acceptable cfg req"
  shows "stored (fst (post_command cfg now req s))"
  using assms by (simp add: acceptable_def post_command_def stored_def Let_def)

lemma written_admin:
  "\<not> strict_eq (command req) (JStr ''register'') \<Longrightarrow> set_has (authorizedUsers s) (playerName req)
   \<Longrightarrow> written s now req (admin_commandObj now req)"
  by (simp add: written_def admin_commandObj_def)

lemma written_alt:
  "\<not> strict_eq (command req) (JStr ''register'') \<Longrightarrow> \<not> set_has (authorizedUsers s) (playerName req)
   \<Longrightarrow> written s now req (alt_commandObj now req)"
  by (simp add: written_def alt_commandObj_def)

lemma post_command_commands:
  "commands (snd (post_command cfg now req s)) = commands s
   \<or> (\<exists>c. written s now req c
          \<and> (commands (snd (post_command cfg now req s)) = commands s @ [c]
              \<or> commands (snd (post_command cfg now req s)) = trim (commands s @ [c])))"
  using post_command_cases[of cfg now req s]
  by (elim disjE conjE) (simp_all add: register_commands, (metis written_admin written_alt)+)

lemma stored_written:
  assumes "stored (fst (post_command cfg now req s))"
  shows "written s now req (last (commands (snd (post_command cfg now req s))))"
proof -
  from post_command_stored[OF assms] obtain c where
    c: "snd (post_command cfg now req s) = s\<lparr>commands := trim (commands s @ [c])\<rparr>"
    and w: "c = admin_commandObj now req \<and> set_has (authorizedUsers s) (playerName req)
               \<or> c = alt_commandObj now req \<and> \<not> set_has (authorizedUsers s) (playerName req)"
    and r: "\<not> strict_eq (command req) (JStr ''register'')"
    by blast
  from w r have "written s now req c"
    using written_admin written_alt by blast
  with c show ?thesis by (simp add: last_trim_snoc)
qed

subsection \<open>Runs\<close>

lemma run_Cons: "run conv cfg s (e # evs) = run conv cfg (step conv cfg s e) evs"
  by (simp add: run_def)

lemma run_snoc: "run conv cfg s (evs @ [e]) = step conv cfg (run conv cfg s evs) e"
  by (simp add: run_def)

lemma step_commands:
  assumes "c \<in> set (commands (step conv cfg s e))"
  shows "c \<in> set (commands s) \<or> (\<exists>now req. e = Post now req \<and> written s now req c)"
proof (cases e)
  case (Post now req)
  from post_command_commands[of cfg now req s]
  consider "commands (snd (post_command cfg now req s)) = commands s"
    | c' where "written s now req c'" "commands (snd (post_command cfg now req s)) = commands s @ [c']"
    | c' where "written s now req c'" "commands (snd (post_command cfg now req s)) = trim (commands s @ [c'])"
    by blast
  then show ?thesis
  proof cases
    case 1
    with assms Post show ?thesis by simp
  next
    case 2
    with assms Post show ?thesis by auto
  next
    case 3
    with assms Post have "c \<in> set (commands s @ [c'])"
      using set_trim[of "commands s @ [c']"] by auto
    with 3 Post show ?thesis by auto
  qed
next
  case (Poll now bk qk sid pid)
  with assms show ?thesis by simp
next
  case (Cleanup now)
  with assms show ?thesis by (auto simp: cleanup_def split: if_splits)
qed

lemma run_commands:
  "c \<in> set (commands (run conv cfg s evs)) \<Longrightarrow>
   c \<in> set (commands s)
   \<or> (\<exists>pre now req post. evs = pre @ Post now req # post \<and> written (run conv cfg s pre) now req c)"
proof (induction evs arbitrary: c rule: rev_induct)
  case Nil
  then show ?case by (simp add: run_def)
next
  case (snoc e evs)
  from snoc.prems have "c \<in> set (commands (step conv cfg (run conv cfg s evs) e))"
    by (simp add: run_snoc)
  from step_commands[OF this]
  show ?case
  proof
    assume "c \<in> set (commands (run conv cfg s evs))"
    from snoc.IH[OF this] show ?thesis
    proof
      assume "c \<in> set (commands s)"
      then show ?thesis by simp
    next
      assume "\<exists>pre now req post. evs = pre @ Post now req # post \<and> written (run conv cfg s pre) now req c"
      then obtain pre now req post
        where "evs = pre @ Post now req # post" "written (run conv cfg s pre) now req c"
        by blast
      then have "evs @ [e] = pre @ Post now req # (post @ [e]) \<and> written (run conv cfg s pre) now req c"
        by simp
      then show ?thesis by blast
    qed
  next
    assume "\<exists>now req. e = Post now req \<and> written (run conv cfg s evs) now req c"
    then obtain now req where "e = Post now req" "written (run conv cfg s evs) now req c"
      by blast
    then have "evs @ [e] = evs @ Post now req # [] \<and> written (run conv cfg s evs) now req c"
      by simp
    then show ?thesis by blast
  qed
qed

lemma step_authorized: "prefix (authorizedUsers s) (authorizedUsers (step conv cfg s e))"
proof (cases e)
  case (Post now req)
  from post_command_cases[of cfg now req s] register_effect[of now req s]
  have "authorizedUsers (snd (post_command cfg now req s)) = authorizedUsers s
        \<or> authorizedUsers (snd (post_command cfg now req s)) = set_add (playerName req) (authorizedUsers s)"
    by (elim disjE conjE exE) (simp_all split: if_splits)
  with Post show ?thesis by (auto simp: prefix_set_add)
next
  case (Poll now bk qk sid pid)
  then show ?thesis by simp
next
  case (Cleanup now)
  then show ?thesis by (simp add: cleanup_def)
qed

lemma run_authorized: "prefix (authorizedUsers s) (authorizedUsers (run conv cfg s evs))"
proof (induction evs rule: rev_induct)
  case Nil
  then show ?case by (simp add: run_def)
next
  case (snoc e evs)
  from snoc step_authorized[of "run conv cfg s evs" conv cfg e] show ?case
    unfolding run_snoc by (rule prefix_order.trans)
qed

lemma appended_commands_irrelevant: "appended (s\<lparr>commands := cs\<rparr>) ps = appended s ps"
  by (simp add: appended_def)

lemma appended_Cons: "appended s (p # ps) = appended s [p] @ appended s ps"
  by (simp add: appended_def)

lemma length_appended: "length (appended s ps) = length ps"
  by (simp add: appended_def)

lemma run_posts_state:
  "all_stored cfg s ps \<Longrightarrow> ps \<noteq> [] \<Longrightarrow>
   run conv cfg s (post_events ps) = s\<lparr>commands := trim (commands s @ appended s ps)\<rparr>"
proof (induction ps arbitrary: s)
  case Nil
  then show ?case by simp
next
  case (Cons p ps)
  obtain now req where p: "p = (now, req)" by (cases p)
  from Cons.prems p have st: "stored (fst (post_command cfg now req s))"
    and rest: "all_stored cfg (snd (post_command cfg now req s)) ps"
    by simp_all
  let ?s1 = "s\<lparr>commands := trim (commands s @ appended s [(now, req)])\<rparr>"
  have s1: "snd (post_command cfg now req s) = ?s1"
    by (rule post_command_stored_eq[OF st])
  have r: "run conv cfg s (post_events (p # ps)) = run conv cfg ?s1 (post_events ps)"
    by (simp add: post_events_def p run_Cons s1)
  show ?case
  proof (cases "ps = []")
    case True
    then show ?thesis by (simp add: post_events_def run_def p s1)
  next
    case False
    have "trim (trim (commands s @ appended s [(now, req)]) @ appended s ps)
          = trim ((commands s @ appended s [(now, req)]) @ appended s ps)"
      by (rule trim_append_trim)
    also have "\<dots> = trim (commands s @ appended s (p # ps))"
      by (simp add: appended_Cons[of s "(now, req)" ps] p)
    finally have tr: "trim (trim (commands s @ appended s [(now, req)]) @ appended s ps)
                      = trim (commands s @ appended s (p # ps))" .
    from Cons.IH[OF rest[unfolded s1] False]
    have "run conv cfg ?s1 (post_events ps)
          = ?s1\<lparr>commands := trim (commands ?s1 @ appended ?s1 ps)\<rparr>" .
    then show ?thesis
      by (simp add: r appended_commands_irrelevant tr)
  qed
qed

lemma run_posts:
  "all_stored cfg s ps \<Longrightarrow> ps \<noteq> [] \<Longrightarrow>
   commands (run conv cfg s (post_events ps)) = trim (commands s @ appended s ps)"
  by (simp add: run_posts_state)

lemma all_stored_replicate: "acceptable cfg req \<Longrightarrow> all_stored cfg s (replicate n (now, req))"
  by (induction n arbitrary: s) (simp_all add: acceptable_stored)

subsection \<open>The allow list and the legacy submissions\<close>

lemma map_of_picked:
  "map_of (concat (map (\<lambda>key. case property data key of
                                 None \<Rightarrow> []
                               | Some v \<Rightarrow> if v \<noteq> JUndefined then [(key, v)] else []) ks)) k
   = (if k \<in> set ks
      then (case property data k of None \<Rightarrow> None
            | Some v \<Rightarrow> if v \<noteq> JUndefined then Some v else None)
      else None)"
  by (induction ks) (auto split: option.splits)

lemma sanitize_keys: "own_keys (sanitizeCommandData data) \<subseteq> set allowedKeys"
  by (auto simp: sanitizeCommandData_def own_keys_def allowedKeys_def split: option.splits if_splits)

lemma sanitize_keeps:
  assumes "truthy data" "k \<in> set allowedKeys"
  shows "property (sanitizeCommandData data) k = property data k"
proof -
  obtain x where x: "property data k = Some x"
    using truthy_property[OF assms(1)] by blast
  show ?thesis
    using assms x by (simp add: sanitizeCommandData_def map_of_picked)
qed

lemma sanitize_obj: "\<exists>kvs. sanitizeCommandData data = JObj kvs"
  by (simp add: sanitizeCommandData_def)

lemma legacy_coordinated:
  assumes "legacy_post_command cfg now req cs = (CoordinatedReceived i, cs')"
  shows "cs' = trim (cs @ [coordinated_commandObj now req (sanitizeCommandData (args req))])
         \<and> strict_eq (command req) (JStr ''coordinated'')"
proof -
  obtain kvs where k: "sanitizeCommandData (args req) = JObj kvs"
    using sanitize_obj by blast
  show ?thesis
    using assms
    by (simp add: legacy_post_command_def Let_def k split: if_splits)
qed

lemma legacy_regular:
  assumes "legacy_post_command cfg now req cs = (CommandReceived i, cs')"
  shows "cs' = trim (cs @ [regular_commandObj now req])
         \<and> \<not> strict_eq (command req) (JStr ''coordinated'')"
proof -
  obtain kvs where k: "sanitizeCommandData (args req) = JObj kvs"
    using sanitize_obj by blast
  show ?thesis
    using assms
    by (simp add: legacy_post_command_def Let_def k split: if_splits)
qed

lemma legacy_stored_eq:
  assumes "stored (fst (legacy_post_command cfg now req cs))"
  shows "snd (legacy_post_command cfg now req cs) = trim (cs @ legacy_appended [(now, req)])"
proof -
  obtain r cs' where e: "legacy_post_command cfg now req cs = (r, cs')"
    by (cases "legacy_post_command cfg now req cs")
  with assms have "stored r" by simp
  then consider i where "r = CoordinatedReceived i" | i where "r = CommandReceived i"
    | i where "r = AdminDistributed i"
    by (cases r) (simp_all add: stored_def)
  then show ?thesis
  proof cases
    case 1
    with legacy_coordinated[of cfg now req cs i cs'] e show ?thesis
      by (simp add: legacy_appended_def)
  next
    case 2
    with legacy_regular[of cfg now req cs i cs'] e show ?thesis
      by (simp add: legacy_appended_def)
  next
    case 3
    obtain kvs where k: "sanitizeCommandData (args req) = JObj kvs"
      using sanitize_obj by blast
    from 3 e show ?thesis
      by (simp add: legacy_post_command_def Let_def k split: if_splits)
  qed
qed

lemma legacy_acceptable_stored:
  assumes "acceptable cfg req" "\<not> strict_eq (command req) (JStr ''coordinated'')"
  shows "stored (fst (legacy_post_command cfg now req cs))"
  using assms by (simp add: acceptable_def legacy_post_command_def stored_def Let_def)

lemma legacy_throwing_regular_submission:
  assumes "validateApiKey cfg (apiKey req) (query_apiKey req)"
    and "truthy (scriptId req)" and "truthy (playerId req)" and "truthy (command req)"
    and "\<not> strict_eq (command req) (JStr ''coordinated'')"
    and "to_string_throws (command req)"
  shows "legacy_post_command cfg now req cs
         = (InternalServerError, cs @ [regular_commandObj now req])"
  using assms by (simp add: legacy_post_command_def Let_def)

lemma legacy_appended_Cons: "legacy_appended (p # ps) = legacy_appended [p] @ legacy_appended ps"
  by (simp add: legacy_appended_def)

lemma legacy_run_posts:
  "legacy_all_stored cfg cs ps \<Longrightarrow> ps \<noteq> [] \<Longrightarrow>
   legacy_run cfg cs ps = trim (cs @ legacy_appended ps)"
proof (induction ps arbitrary: cs)
  case Nil
  then show ?case by simp
next
  case (Cons p ps)
  obtain now req where p: "p = (now, req)" by (cases p)
  from Cons.prems p have st: "stored (fst (legacy_post_command cfg now req cs))"
    and rest: "legacy_all_stored cfg (snd (legacy_post_command cfg now req cs)) ps"
    by simp_all
  let ?cs1 = "trim (cs @ legacy_appended [(now, req)])"
  have s1: "snd (legacy_post_command cfg now req cs) = ?cs1"
    by (rule legacy_stored_eq[OF st])
  have r: "legacy_run cfg cs (p # ps) = legacy_run cfg ?cs1 ps"
    by (simp add: legacy_run_def p s1)
  show ?case
  proof (cases "ps = []")
    case True
    then show ?thesis by (simp add: legacy_run_def p s1)
  next
    case False
    from Cons.IH[OF rest[unfolded s1] False]
    have "legacy_run cfg ?cs1 ps = trim (trim (cs @ legacy_appended [(now, req)]) @ legacy_appended ps)" .
    also have "\<dots> = trim ((cs @ legacy_appended [(now, req)]) @ legacy_appended ps)"
      by (rule trim_append_trim)
    also have "\<dots> = trim (cs @ legacy_appended (p # ps))"
      by (simp add: legacy_appended_Cons[of "(now, req)" ps] p)
    finally show ?thesis by (simp add: r)
  qed
qed

lemma legacy_all_stored_replicate:
  "acceptable cfg req \<Longrightarrow> \<not> strict_eq (command req) (JStr ''coordinated'')
   \<Longrightarrow> legacy_all_stored cfg cs (replicate n (now, req))"
  by (induction n arbitrary: cs) (simp_all add: legacy_acceptable_stored)

subsection \<open>The filters\<close>

lemma visible_rule:
  assumes "base_tests conv now sid pid cmd"
  shows "visible conv now sid pid
           (case map_get (registeredUsers s) pid of None \<Rightarrow> JBool False | Some u \<Rightarrow> user_isAuthorized u)
           (case map_get (registeredUsers s) pid of None \<Rightarrow> JNull | Some u \<Rightarrow> user_playerName u) cmd
         = Some (role_target_rule s pid cmd)"
proof (cases "truthy (args cmd)")
  case True
  then obtain x where x: "property (args cmd) ''target'' = Some x"
    using truthy_property by blast
  with assms True show ?thesis
    by (auto simp: visible_def base_tests_def role_target_rule_def poller_is_admin_def
        poller_named_def explicit_target_def truthy_not_null split: option.splits)
next
  case False
  with falsy_property[OF False, of "''target''"] assms show ?thesis
    by (auto simp: visible_def base_tests_def role_target_rule_def poller_is_admin_def
        poller_named_def explicit_target_def split: option.splits)
qed

lemma visible_base:
  "visible conv now sid pid adm name cmd = Some True \<Longrightarrow> base_tests conv now sid pid cmd"
  by (auto simp: visible_def base_tests_def split: if_splits option.splits)

lemma visible_throws:
  "visible conv now sid pid adm name cmd = None \<Longrightarrow> to_string_throws (timestamp cmd)"
proof -
  assume a: "visible conv now sid pid adm name cmd = None"
  show ?thesis
  proof (rule ccontr)
    assume "\<not> to_string_throws (timestamp cmd)"
    then obtain b where b: "js_lt conv (timestamp cmd) (now - 30000) = Some b"
      using js_lt_throws[of conv "timestamp cmd" "now - 30000"] by (cases "js_lt conv (timestamp cmd) (now - 30000)") auto
    show False
    proof (cases "truthy (args cmd)")
      case True
      then obtain x where "property (args cmd) ''target'' = Some x"
        using truthy_property by blast
      with a b True show False
        by (auto simp: visible_def split: if_splits)
    next
      case False
      with a b show False
        by (auto simp: visible_def split: if_splits)
    qed
  qed
qed

lemma get_commands_filter:
  assumes "get_commands conv cfg now body_key query_key sid pid s = Commands rs"
  shows "rs = filter (\<lambda>cmd. visible conv now sid pid
           (case map_get (registeredUsers s) pid of None \<Rightarrow> JBool False | Some u \<Rightarrow> user_isAuthorized u)
           (case map_get (registeredUsers s) pid of None \<Rightarrow> JNull | Some u \<Rightarrow> user_playerName u)
           cmd = Some True)
           (commands s)"
  using assms by (simp add: get_commands_def Let_def split: if_splits)

lemma get_commands_answers:
  assumes "validateApiKey cfg body_key query_key" "truthy sid" "truthy pid"
    and "\<forall>c \<in> set (commands s). \<not> to_string_throws (timestamp c)"
  shows "\<exists>rs. get_commands conv cfg now body_key query_key sid pid s = Commands rs"
proof -
  have "visible conv now sid pid adm name cmd \<noteq> None" if "cmd \<in> set (commands s)" for adm name cmd
    using that assms(4) visible_throws[of conv now sid pid adm name cmd] by blast
  then have "\<not> list_ex (\<lambda>cmd. visible conv now sid pid
           (case map_get (registeredUsers s) pid of None \<Rightarrow> JBool False | Some u \<Rightarrow> user_isAuthorized u)
           (case map_get (registeredUsers s) pid of None \<Rightarrow> JNull | Some u \<Rightarrow> user_playerName u)
           cmd = None) (commands s)"
    unfolding list_ex_iff by blast
  with assms(1-3) show ?thesis
    by (simp add: get_commands_def Let_def)
qed

lemma legacy_get_commands_filter:
  assumes "legacy_get_commands conv cfg now body_key query_key sid pid cs = Commands rs"
  shows "rs = filter (\<lambda>cmd. legacy_visible conv now sid pid cmd = Some True) cs"
  using assms by (simp add: legacy_get_commands_def split: if_splits)

lemma legacy_get_commands_no_throw:
  assumes "legacy_get_commands conv cfg now body_key query_key sid pid cs = Commands rs" "cmd \<in> set cs"
  shows "legacy_visible conv now sid pid cmd \<noteq> None"
  using assms by (auto simp: legacy_get_commands_def list_ex_iff split: if_splits)

lemma legacy_visible_base:
  "legacy_visible conv now sid pid cmd = Some True \<Longrightarrow> base_tests conv now sid pid cmd"
  by (auto simp: legacy_visible_def base_tests_def split: if_splits option.splits)

lemma legacy_visible_rule:
  assumes "base_tests conv now sid pid cmd" "legacy_visible conv now sid pid cmd \<noteq> None"
  shows "legacy_visible conv now sid pid cmd = Some True \<longleftrightarrow> legacy_target_rule pid cmd"
  using assms
  by (auto simp: legacy_visible_def base_tests_def legacy_target_rule_def
      split: if_splits option.splits)

lemma legacy_visible_throws:
  assumes "legacy_visible conv now sid pid cmd = None"
  shows "to_string_throws (timestamp cmd)
         \<or> isCoordinated cmd \<and> property (args cmd) ''targetAlts'' = None"
proof (rule ccontr)
  assume n: "\<not> (to_string_throws (timestamp cmd)
         \<or> isCoordinated cmd \<and> property (args cmd) ''targetAlts'' = None)"
  then obtain b where b: "js_lt conv (timestamp cmd) (now - 30000) = Some b"
    using js_lt_throws[of conv "timestamp cmd" "now - 30000"]
    by (cases "js_lt conv (timestamp cmd) (now - 30000)") auto
  from assms b n show False
    by (auto simp: legacy_visible_def split: if_splits option.splits)
qed

lemma legacy_get_commands_answers:
  assumes "validateApiKey cfg body_key query_key" "truthy sid" "truthy pid"
    and "\<forall>c \<in> set cs. \<not> to_string_throws (timestamp c)"
    and "\<forall>c \<in> set cs. isCoordinated c \<longrightarrow> property (args c) ''targetAlts'' \<noteq> None"
  shows "\<exists>rs. legacy_get_commands conv cfg now body_key query_key sid pid cs = Commands rs"
proof -
  have "legacy_visible conv now sid pid cmd \<noteq> None" if "cmd \<in> set cs" for cmd
    using that assms(4,5) legacy_visible_throws[of conv now sid pid cmd] by blast
  then have "\<not> list_ex (\<lambda>cmd. legacy_visible conv now sid pid cmd = None) cs"
    unfolding list_ex_iff by blast
  with assms(1-3) show ?thesis
    by (simp add: legacy_get_commands_def)
qed

text \<open>
  What both variants return is a subsequence of the log, in its order, and every returned
  record passes the base tests.
\<close>

lemma returned_records:
  assumes "get_commands conv cfg now body_key query_key sid pid s = Commands rs"
  shows "subseq rs (commands s) \<and> (\<forall>c \<in> set rs. base_tests conv now sid pid c)"
  using get_commands_filter[OF assms] visible_base by auto

lemma legacy_returned_records:
  assumes "legacy_get_commands conv cfg now body_key query_key sid pid cs = Commands rs"
  shows "subseq rs cs \<and> (\<forall>c \<in> set rs. base_tests conv now sid pid c)"
  using legacy_get_commands_filter[OF assms] legacy_visible_base by auto

lemma base_tests_unstamped:
  assumes "timestamp cmd = JUndefined"
  shows "base_tests conv now sid pid cmd
         \<longleftrightarrow> strict_eq (scriptId cmd) sid \<and> \<not> strict_eq (playerId cmd) pid"
  using assms by (simp add: base_tests_def js_lt_undefined)

lemma unstamped_role_aware:
  assumes "timestamp cmd = JUndefined" "cmd \<in> set (commands s)"
    "get_commands conv cfg now body_key query_key sid pid s = Commands rs"
  shows "cmd \<in> set rs \<longleftrightarrow>
         strict_eq (scriptId cmd) sid \<and> \<not> strict_eq (playerId cmd) pid \<and> role_target_rule s pid cmd"
proof (cases "base_tests conv now sid pid cmd")
  case True
  from visible_rule[OF True, of s] get_commands_filter[OF assms(3)] assms(2) True
  show ?thesis by (simp add: base_tests_unstamped[OF assms(1)])
next
  case False
  with visible_base[of conv now sid pid _ _ cmd] get_commands_filter[OF assms(3)]
  have "cmd \<notin> set rs" by auto
  with False show ?thesis by (simp add: base_tests_unstamped[OF assms(1)])
qed

lemma unstamped_legacy:
  assumes "timestamp cmd = JUndefined" "cmd \<in> set cs"
    "legacy_get_commands conv cfg now body_key query_key sid pid cs = Commands rs"
  shows "cmd \<in> set rs \<longleftrightarrow>
         strict_eq (scriptId cmd) sid \<and> \<not> strict_eq (playerId cmd) pid \<and> legacy_target_rule pid cmd"
proof (cases "base_tests conv now sid pid cmd")
  case True
  from legacy_visible_rule[OF True legacy_get_commands_no_throw[OF assms(3) assms(2)]]
    legacy_get_commands_filter[OF assms(3)] assms(2) True
  show ?thesis by (simp add: base_tests_unstamped[OF assms(1)])
next
  case False
  with legacy_visible_base[of conv now sid pid cmd] legacy_get_commands_filter[OF assms(3)]
  have "cmd \<notin> set rs" by auto
  with False show ?thesis by (simp add: base_tests_unstamped[OF assms(1)])
qed

subsection \<open>The cleanup\<close>

lemma cleanup_completes:
  assumes "\<forall>c \<in> set (commands s). \<not> to_string_throws (timestamp c)"
  shows "cleanup conv now s
         = Some (s\<lparr>commands := filter (\<lambda>cmd. js_gt conv (timestamp cmd) (now - 300000) = Some True)
                                (commands s)\<rparr>)"
  using assms by (simp add: cleanup_def list_ex_iff js_gt_throws)

lemma legacy_cleanup_completes:
  assumes "\<forall>c \<in> set cs. \<not> to_string_throws (timestamp c)"
  shows "legacy_cleanup conv now cs
         = Some (filter (\<lambda>cmd. js_gt conv (timestamp cmd) (now - 300000) = Some True) cs)"
  using assms by (simp add: legacy_cleanup_def list_ex_iff js_gt_throws)

lemma cleanup_throws:
  assumes "c \<in> set (commands s)" "to_string_throws (timestamp c)"
  shows "cleanup conv now s = None"
  using assms by (auto simp: cleanup_def list_ex_iff js_gt_throws)

lemma legacy_cleanup_throws:
  assumes "c \<in> set cs" "to_string_throws (timestamp c)"
  shows "legacy_cleanup conv now cs = None"
  using assms by (auto simp: legacy_cleanup_def list_ex_iff js_gt_throws)

text \<open>
  A cleanup that completes does what its comment says: no record with a timestamp below
  \<open>now - 300000\<close> is left, the records with a timestamp above it are the same as before and
  in the same order, and nothing is added or reordered.
\<close>

lemma completed_cleanup:
  assumes "cleanup conv now s = Some s'"
  shows "(\<forall>c \<in> set (commands s'). js_lt conv (timestamp c) (now - 300000) = Some False)
   \<and> filter (\<lambda>c. js_gt conv (timestamp c) (now - 300000) = Some True) (commands s')
       = filter (\<lambda>c. js_gt conv (timestamp c) (now - 300000) = Some True) (commands s)
   \<and> subseq (commands s') (commands s)"
  using assms by (auto simp: cleanup_def js_gt_not_lt split: if_splits)

lemma completed_legacy_cleanup:
  assumes "legacy_cleanup conv now cs = Some cs'"
  shows "(\<forall>c \<in> set cs'. js_lt conv (timestamp c) (now - 300000) = Some False)
   \<and> filter (\<lambda>c. js_gt conv (timestamp c) (now - 300000) = Some True) cs'
       = filter (\<lambda>c. js_gt conv (timestamp c) (now - 300000) = Some True) cs
   \<and> subseq cs' cs"
  using assms by (auto simp: legacy_cleanup_def js_gt_not_lt split: if_splits)

subsection \<open>Stored submissions and the capacity\<close>

text \<open>
  As long as every submission is stored and acknowledged, the log is the last 100 records
  of the earlier log followed by the appended ones; once 100 or more have been appended it
  is exactly the 100 appended last.
\<close>

lemma stored_submissions_keep_last_100:
  "(stored (fst (post_command cfg now req s)) \<longrightarrow>
      length (commands (snd (post_command cfg now req s))) \<le> 100)
   \<and> (all_stored cfg s ps \<and> ps \<noteq> [] \<longrightarrow>
        commands (run conv cfg s (post_events ps)) = trim (commands s @ appended s ps)
        \<and> length (commands (run conv cfg s (post_events ps))) \<le> 100)
   \<and> (all_stored cfg s ps \<and> length ps \<ge> 100 \<longrightarrow>
        commands (run conv cfg s (post_events ps)) = drop (length ps - 100) (appended s ps))
   \<and> (stored (fst (legacy_post_command cfg now req cs)) \<longrightarrow>
        length (snd (legacy_post_command cfg now req cs)) \<le> 100)
   \<and> (legacy_all_stored cfg cs ps \<and> ps \<noteq> [] \<longrightarrow>
        legacy_run cfg cs ps = trim (cs @ legacy_appended ps)
        \<and> length (legacy_run cfg cs ps) \<le> 100)
   \<and> (legacy_all_stored cfg cs ps \<and> length ps \<ge> 100 \<longrightarrow>
        legacy_run cfg cs ps = drop (length ps - 100) (legacy_appended ps))"
proof -
  have a: "length (commands (snd (post_command cfg now req s))) \<le> 100"
    if "stored (fst (post_command cfg now req s))"
    using post_command_stored_eq[OF that] by (simp add: length_trim)
  have b: "commands (run conv cfg s (post_events ps)) = trim (commands s @ appended s ps)"
    if "all_stored cfg s ps" "ps \<noteq> []"
    using run_posts[OF that] .
  have c: "commands (run conv cfg s (post_events ps)) = drop (length ps - 100) (appended s ps)"
    if "all_stored cfg s ps" "length ps \<ge> 100"
  proof -
    from that(2) have "ps \<noteq> []" by auto
    from b[OF that(1) this] trim_long_suffix[of "appended s ps" "commands s"] that(2)
    show ?thesis by (simp add: length_appended)
  qed
  have d: "length (snd (legacy_post_command cfg now req cs)) \<le> 100"
    if "stored (fst (legacy_post_command cfg now req cs))"
    using legacy_stored_eq[OF that] by (simp add: length_trim)
  have e: "legacy_run cfg cs ps = trim (cs @ legacy_appended ps)"
    if "legacy_all_stored cfg cs ps" "ps \<noteq> []"
    using legacy_run_posts[OF that] .
  have f: "legacy_run cfg cs ps = drop (length ps - 100) (legacy_appended ps)"
    if "legacy_all_stored cfg cs ps" "length ps \<ge> 100"
  proof -
    from that(2) have "ps \<noteq> []" by auto
    from e[OF that(1) this] trim_long_suffix[of "legacy_appended ps" cs] that(2)
    show ?thesis by (simp add: legacy_appended_def)
  qed
  from a b c d e f show ?thesis
    by (simp add: length_trim)
qed

subsection \<open>The example scenario\<close>

lemma admin_registered_run: "run conv cfg_open initial [Post 0 register_admin] = admin_registered"
  by (simp add: handler_defs example_defs)

lemma bring_distributed:
  "post_command cfg_open now (bring t) admin_registered
   = (AdminDistributed now, admin_registered\<lparr>commands := [admin_commandObj now (bring t)]\<rparr>)"
  by (simp add: handler_defs example_defs)


lemma unstamped_bring_polled_by_B:
  "get_commands conv cfg_open now JUndefined JUndefined (JStr ''s1'') (JStr ''B'')
     (admin_registered\<lparr>commands := [admin_commandObj t (bring JUndefined)]\<rparr>)
   = Commands [admin_commandObj t (bring JUndefined)]"
  by (simp add: handler_defs example_defs)

lemma legacy_unstamped_bring:
  "legacy_post_command cfg_open t (bring JUndefined) []
   = (CommandReceived t, [regular_commandObj t (bring JUndefined)])"
  by (simp add: legacy_defs handler_defs example_defs)

lemma legacy_unstamped_bring_polled_by_B:
  "legacy_get_commands conv cfg_open now JUndefined JUndefined (JStr ''s1'') (JStr ''B'')
     [regular_commandObj t (bring JUndefined)]
   = Commands [regular_commandObj t (bring JUndefined)]"
  by (simp add: legacy_defs handler_defs example_defs)

lemma say_tagged_acceptable: "acceptable cfg_open say_tagged"
  by (simp add: acceptable_def handler_defs example_defs)

lemma say_unreadable_received:
  "post_command cfg_open now say_unreadable (admin_registered\<lparr>commands := cs\<rparr>)
   = (CommandReceived now,
      admin_registered\<lparr>commands := trim (cs @ [alt_commandObj now say_unreadable])\<rparr>)"
  by (simp add: post_command_def Let_def validateApiKey_def REQUIRE_API_KEY_def set_has_def
      alt_commandObj_def example_defs)

lemma legacy_say_unreadable_received:
  "legacy_post_command cfg_open now say_unreadable cs
   = (CommandReceived now, trim (cs @ [regular_commandObj now say_unreadable]))"
  by (simp add: legacy_post_command_def Let_def validateApiKey_def REQUIRE_API_KEY_def
      regular_commandObj_def example_defs)

lemma legacy_bring_received:
  "legacy_post_command cfg_open now (bring t) cs
   = (CommandReceived now, trim (cs @ [regular_commandObj now (bring t)]))"
  by (simp add: legacy_post_command_def Let_def validateApiKey_def REQUIRE_API_KEY_def
      regular_commandObj_def example_defs)

lemma say_unreadable_throws: "to_string_throws (timestamp say_unreadable)"
  by (simp add: example_defs)

lemma beside_unreadable_run:
  "run conv cfg_open initial [Post 0 register_admin, Post 1000 (bring t), Post 1500 say_unreadable]
   = beside_unreadable t"
proof -
  have "run conv cfg_open initial [Post 0 register_admin, Post 1000 (bring t), Post 1500 say_unreadable]
        = run conv cfg_open admin_registered [Post 1000 (bring t), Post 1500 say_unreadable]"
    using admin_registered_run[of conv] by (simp add: run_def)
  also have "\<dots> = beside_unreadable t"
    by (simp add: run_def bring_distributed say_unreadable_received beside_unreadable_def trim_def)
  finally show ?thesis .
qed

lemma legacy_beside_unreadable_run:
  "legacy_run cfg_open [] [(1000, bring t), (1500, say_unreadable)] = legacy_beside_unreadable t"
  by (simp add: legacy_run_def legacy_bring_received legacy_say_unreadable_received
      legacy_beside_unreadable_def trim_def)

section \<open>The read path\<close>



text \<open>
  C2. The claim lets a poll return only records whose timestamp is at least the poll
  instant minus 30000. Here the admin's \<open>bring\<close> is submitted at instant 1000 without a
  timestamp, and a poll by \<open>B\<close> a minute later, at instant 61000, still returns it, in the
  role-aware server and in the legacy variant alike.
\<close>

theorem unstamped_record_returned_after_a_minute:
  "get_commands conv cfg_open 61000 JUndefined JUndefined (JStr ''s1'') (JStr ''B'')
     (run conv cfg_open initial [Post 0 register_admin, Post 1000 (bring JUndefined)])
   = Commands [admin_commandObj 1000 (bring JUndefined)]
   \<and> timestamp (admin_commandObj 1000 (bring JUndefined)) = JUndefined
   \<and> legacy_get_commands conv cfg_open 61000 JUndefined JUndefined (JStr ''s1'') (JStr ''B'')
       (legacy_run cfg_open [] [(1000, bring JUndefined)])
     = Commands [regular_commandObj 1000 (bring JUndefined)]
   \<and> timestamp (regular_commandObj 1000 (bring JUndefined)) = JUndefined"
proof -
  have r1: "run conv cfg_open initial [Post 0 register_admin, Post 1000 (bring JUndefined)]
        = admin_registered\<lparr>commands := [admin_commandObj 1000 (bring JUndefined)]\<rparr>"
    using admin_registered_run[of conv] by (simp add: run_def bring_distributed)
  have r2: "legacy_run cfg_open [] [(1000, bring JUndefined)]
            = [regular_commandObj 1000 (bring JUndefined)]"
    by (simp add: legacy_run_def legacy_unstamped_bring)
  have t1: "timestamp (admin_commandObj 1000 (bring JUndefined)) = JUndefined"
    by (simp add: admin_commandObj_def bring_def submission_def)
  have t2: "timestamp (regular_commandObj 1000 (bring JUndefined)) = JUndefined"
    by (simp add: regular_commandObj_def bring_def submission_def)
  show ?thesis
    unfolding r1 r2
    using unstamped_bring_polled_by_B[of conv 61000 1000]
      legacy_unstamped_bring_polled_by_B[of conv 61000 1000] t1 t2
    by blast
qed

theorem unstamped_record_returned_after_a_minute_witness:
  "\<exists>c. get_commands no_numbers cfg_open 61000 JUndefined JUndefined (JStr ''s1'') (JStr ''B'')
          (run no_numbers cfg_open initial [Post 0 register_admin, Post 1000 (bring JUndefined)])
        = Commands [c]
        \<and> timestamp c = JUndefined"
  using unstamped_record_returned_after_a_minute[of no_numbers] by blast

text \<open>
  C9, as amended. Take a stored record without a timestamp, in a log none of whose
  records has a timestamp that throws on conversion to a number. Then every poll that
  passes the API-key and required-field checks is answered with the command list, at
  whatever instant it comes, and the list holds the record exactly when its scriptId
  matches, the poller is not its sender and the targeting rule of the variant allows it
  (in the legacy variant, every coordinated record having an \<open>args\<close> to read \<open>targetAlts\<close>
  from). And the cleanup, at whatever instant it runs, completes and removes the record.
\<close>

theorem record_without_timestamp:
  "(timestamp cmd = JUndefined \<and> cmd \<in> set (commands s)
      \<and> (\<forall>c \<in> set (commands s). \<not> to_string_throws (timestamp c)) \<longrightarrow>
      (validateApiKey cfg body_key query_key \<and> truthy sid \<and> truthy pid \<longrightarrow>
         (\<exists>rs. get_commands conv cfg now body_key query_key sid pid s = Commands rs
               \<and> (cmd \<in> set rs \<longleftrightarrow>
                    strict_eq (scriptId cmd) sid \<and> \<not> strict_eq (playerId cmd) pid
                    \<and> role_target_rule s pid cmd)))
      \<and> (\<exists>s'. cleanup conv now' s = Some s' \<and> cmd \<notin> set (commands s')))
   \<and> (timestamp lc = JUndefined \<and> lc \<in> set cs
      \<and> (\<forall>c \<in> set cs. \<not> to_string_throws (timestamp c)) \<longrightarrow>
      (validateApiKey cfg body_key query_key \<and> truthy sid \<and> truthy pid
         \<and> (\<forall>c \<in> set cs. isCoordinated c \<longrightarrow> property (args c) ''targetAlts'' \<noteq> None) \<longrightarrow>
         (\<exists>lrs. legacy_get_commands conv cfg now body_key query_key sid pid cs = Commands lrs
               \<and> (lc \<in> set lrs \<longleftrightarrow>
                    strict_eq (scriptId lc) sid \<and> \<not> strict_eq (playerId lc) pid
                    \<and> legacy_target_rule pid lc)))
      \<and> (\<exists>cs'. legacy_cleanup conv now' cs = Some cs' \<and> lc \<notin> set cs'))"
proof -
  have poll: "\<exists>rs. get_commands conv cfg now body_key query_key sid pid s = Commands rs
               \<and> (cmd \<in> set rs \<longleftrightarrow>
                    strict_eq (scriptId cmd) sid \<and> \<not> strict_eq (playerId cmd) pid
                    \<and> role_target_rule s pid cmd)"
    if "timestamp cmd = JUndefined" "cmd \<in> set (commands s)"
      "\<forall>c \<in> set (commands s). \<not> to_string_throws (timestamp c)"
      "validateApiKey cfg body_key query_key" "truthy sid" "truthy pid"
  proof -
    from get_commands_answers[OF that(4,5,6,3), of conv now] obtain rs
      where rs: "get_commands conv cfg now body_key query_key sid pid s = Commands rs"
      by blast
    from unstamped_role_aware[OF that(1,2) rs] rs show ?thesis
      by blast
  qed
  have prune: "\<exists>s'. cleanup conv now' s = Some s' \<and> cmd \<notin> set (commands s')"
    if "timestamp cmd = JUndefined" "\<forall>c \<in> set (commands s). \<not> to_string_throws (timestamp c)"
    using that by (simp add: cleanup_completes js_gt_undefined)
  have lpoll: "\<exists>lrs. legacy_get_commands conv cfg now body_key query_key sid pid cs = Commands lrs
               \<and> (lc \<in> set lrs \<longleftrightarrow>
                    strict_eq (scriptId lc) sid \<and> \<not> strict_eq (playerId lc) pid
                    \<and> legacy_target_rule pid lc)"
    if "timestamp lc = JUndefined" "lc \<in> set cs"
      "\<forall>c \<in> set cs. \<not> to_string_throws (timestamp c)"
      "validateApiKey cfg body_key query_key" "truthy sid" "truthy pid"
      "\<forall>c \<in> set cs. isCoordinated c \<longrightarrow> property (args c) ''targetAlts'' \<noteq> None"
  proof -
    from legacy_get_commands_answers[OF that(4,5,6,3,7), of conv now] obtain lrs
      where lrs: "legacy_get_commands conv cfg now body_key query_key sid pid cs = Commands lrs"
      by blast
    from unstamped_legacy[OF that(1,2) lrs] lrs show ?thesis
      by blast
  qed
  have lprune: "\<exists>cs'. legacy_cleanup conv now' cs = Some cs' \<and> lc \<notin> set cs'"
    if "timestamp lc = JUndefined" "\<forall>c \<in> set cs. \<not> to_string_throws (timestamp c)"
    using that by (simp add: legacy_cleanup_completes js_gt_undefined)
  from poll prune lpoll lprune show ?thesis
    by blast
qed

theorem record_without_timestamp_witness:
  "(\<exists>rs. get_commands no_numbers cfg_open 9000000 JUndefined JUndefined (JStr ''s1'') (JStr ''B'')
           (admin_registered\<lparr>commands := [admin_commandObj 1000 (bring JUndefined)]\<rparr>)
         = Commands rs
         \<and> admin_commandObj 1000 (bring JUndefined) \<in> set rs)
   \<and> (\<exists>s'. cleanup no_numbers 1001
              (admin_registered\<lparr>commands := [admin_commandObj 1000 (bring JUndefined)]\<rparr>)
            = Some s'
            \<and> admin_commandObj 1000 (bring JUndefined) \<notin> set (commands s'))
   \<and> (\<exists>lrs. legacy_get_commands no_numbers cfg_open 9000000 JUndefined JUndefined
              (JStr ''s1'') (JStr ''B'') [regular_commandObj 1000 (bring JUndefined)]
            = Commands lrs
            \<and> regular_commandObj 1000 (bring JUndefined) \<in> set lrs)
   \<and> (\<exists>cs'. legacy_cleanup no_numbers 1001 [regular_commandObj 1000 (bring JUndefined)] = Some cs'
             \<and> regular_commandObj 1000 (bring JUndefined) \<notin> set cs')"
proof -
  let ?c = "admin_commandObj 1000 (bring JUndefined)"
  let ?s = "admin_registered\<lparr>commands := [?c]\<rparr>"
  let ?lc = "regular_commandObj 1000 (bring JUndefined)"
  have t: "timestamp ?c = JUndefined" "timestamp ?lc = JUndefined"
    by (simp_all add: admin_commandObj_def regular_commandObj_def bring_def submission_def)
  have held: "?c \<in> set (commands ?s)" "?lc \<in> set [?lc]"
    by simp_all
  have readable: "\<forall>c \<in> set (commands ?s). \<not> to_string_throws (timestamp c)"
    "\<forall>c \<in> set [?lc]. \<not> to_string_throws (timestamp c)"
    using t by simp_all
  have request: "validateApiKey cfg_open JUndefined JUndefined" "truthy (JStr ''s1'')"
    "truthy (JStr ''B'')"
    by (simp_all add: validateApiKey_def REQUIRE_API_KEY_def cfg_open_def)
  have plain: "\<forall>c \<in> set [?lc]. isCoordinated c \<longrightarrow> property (args c) ''targetAlts'' \<noteq> None"
    by (simp add: regular_commandObj_def)
  have allowed: "strict_eq (scriptId ?c) (JStr ''s1'')" "\<not> strict_eq (playerId ?c) (JStr ''B'')"
    "role_target_rule ?s (JStr ''B'') ?c"
    by (simp_all add: admin_commandObj_def bring_def submission_def role_target_rule_def
        poller_is_admin_def explicit_target_def js_or_def admin_registered_def)
  have lallowed: "strict_eq (scriptId ?lc) (JStr ''s1'')" "\<not> strict_eq (playerId ?lc) (JStr ''B'')"
    "legacy_target_rule (JStr ''B'') ?lc"
    by (simp_all add: regular_commandObj_def bring_def submission_def legacy_target_rule_def)
  note inst = record_without_timestamp[of ?c ?s cfg_open JUndefined JUndefined "JStr ''s1''"
      "JStr ''B''" no_numbers 9000000 1001 ?lc "[?lc]"]
  from inst t(1) held(1) readable(1) request allowed
  have a: "\<exists>rs. get_commands no_numbers cfg_open 9000000 JUndefined JUndefined (JStr ''s1'')
                  (JStr ''B'') ?s = Commands rs \<and> ?c \<in> set rs"
    by blast
  from inst t(1) held(1) readable(1)
  have b: "\<exists>s'. cleanup no_numbers 1001 ?s = Some s' \<and> ?c \<notin> set (commands s')"
    by blast
  from inst t(2) held(2) readable(2) request plain lallowed
  have c: "\<exists>lrs. legacy_get_commands no_numbers cfg_open 9000000 JUndefined JUndefined
                   (JStr ''s1'') (JStr ''B'') [?lc] = Commands lrs \<and> ?lc \<in> set lrs"
    by blast
  from inst t(2) held(2) readable(2)
  have d: "\<exists>cs'. legacy_cleanup no_numbers 1001 [?lc] = Some cs' \<and> ?lc \<notin> set cs'"
    by blast
  from a b c d show ?thesis
    by blast
qed

text \<open>
  C9 as worded fails when another record of the log has a timestamp that throws on
  conversion. After \<open>A\<close>'s \<open>bring\<close> without a timestamp, \<open>D\<close> submits with the timestamp
  \<open>{toString: 1}\<close>. The unstamped record matches \<open>B\<close>'s script, is not \<open>B\<close>'s own and is
  allowed by the role-target rule; yet \<open>B\<close>'s poll is answered 500 and returns nothing, and
  the cleanup throws and removes nothing.
\<close>

theorem record_without_timestamp_counterexample:
  "run no_numbers cfg_open initial
     [Post 0 register_admin, Post 1000 (bring JUndefined), Post 1500 say_unreadable]
   = beside_unreadable JUndefined
   \<and> admin_commandObj 1000 (bring JUndefined) \<in> set (commands (beside_unreadable JUndefined))
   \<and> timestamp (admin_commandObj 1000 (bring JUndefined)) = JUndefined
   \<and> strict_eq (scriptId (admin_commandObj 1000 (bring JUndefined))) (JStr ''s1'')
   \<and> \<not> strict_eq (playerId (admin_commandObj 1000 (bring JUndefined))) (JStr ''B'')
   \<and> role_target_rule (beside_unreadable JUndefined) (JStr ''B'')
       (admin_commandObj 1000 (bring JUndefined))
   \<and> get_commands no_numbers cfg_open 2000 JUndefined JUndefined (JStr ''s1'') (JStr ''B'')
       (beside_unreadable JUndefined)
     = InternalServerError
   \<and> cleanup no_numbers 400000 (beside_unreadable JUndefined) = None
   \<and> admin_commandObj 1000 (bring JUndefined)
       \<in> set (commands (step no_numbers cfg_open (beside_unreadable JUndefined) (Cleanup 400000)))"
proof -
  let ?c = "admin_commandObj 1000 (bring JUndefined)"
  have a: "?c \<in> set (commands (beside_unreadable JUndefined))"
    by (simp add: beside_unreadable_def)
  have b: "timestamp ?c = JUndefined" "strict_eq (scriptId ?c) (JStr ''s1'')"
    "\<not> strict_eq (playerId ?c) (JStr ''B'')"
    by (simp_all add: admin_commandObj_def bring_def submission_def)
  have c: "role_target_rule (beside_unreadable JUndefined) (JStr ''B'') ?c"
    by (simp add: admin_commandObj_def bring_def submission_def role_target_rule_def
        poller_is_admin_def explicit_target_def js_or_def admin_registered_def
        beside_unreadable_def)
  have d: "get_commands no_numbers cfg_open 2000 JUndefined JUndefined (JStr ''s1'') (JStr ''B'')
             (beside_unreadable JUndefined) = InternalServerError"
    by (simp add: handler_defs example_defs beside_unreadable_def)
  have e: "cleanup no_numbers 400000 (beside_unreadable JUndefined) = None"
    by (rule cleanup_throws[of "alt_commandObj 1500 say_unreadable"])
       (simp_all add: beside_unreadable_def alt_commandObj_def say_unreadable_throws)
  from a e have f: "?c \<in> set (commands (step no_numbers cfg_open (beside_unreadable JUndefined)
                                          (Cleanup 400000)))"
    by simp
  from beside_unreadable_run[of no_numbers JUndefined] a b c d e f show ?thesis
    by blast
qed

section \<open>The write path\<close>

text \<open>
  C3, as amended. The role-aware server stores \<open>args\<close> as submitted (\<open>{}\<close> when the
  submitted value is falsy): no key is dropped. In the legacy variant only a submission
  with command \<open>coordinated\<close> goes through the allow list: its stored \<open>args\<close> holds only
  keys of the allow list, each such key with the value submitted; every other legacy
  submission is stored with its \<open>args\<close> as submitted.
\<close>

theorem args_allow_list_only_for_coordinated:
  "(stored (fst (post_command cfg now req s)) \<longrightarrow>
      args (last (commands (snd (post_command cfg now req s)))) = js_or (args req) (JObj []))
   \<and> (\<forall>i cs'. legacy_post_command cfg now req cs = (CoordinatedReceived i, cs') \<longrightarrow>
         args (last cs') = sanitizeCommandData (args req)
         \<and> own_keys (args (last cs')) \<subseteq> set allowedKeys
         \<and> (\<forall>k \<in> set allowedKeys. truthy (args req) \<longrightarrow>
                property (args (last cs')) k = property (args req) k))
   \<and> (\<forall>i cs'. legacy_post_command cfg now req cs = (CommandReceived i, cs') \<longrightarrow>
         args (last cs') = js_or (args req) (JObj []))"
proof -
  have role_aware: "args (last (commands (snd (post_command cfg now req s)))) = js_or (args req) (JObj [])"
    if "stored (fst (post_command cfg now req s))"
    using post_command_stored[OF that]
    by (auto simp: last_trim_snoc admin_commandObj_def alt_commandObj_def)
  have coordinated: "args (last cs') = sanitizeCommandData (args req)"
    if "legacy_post_command cfg now req cs = (CoordinatedReceived i, cs')" for i cs'
    using legacy_coordinated[OF that] by (simp add: last_trim_snoc coordinated_commandObj_def)
  have regular: "args (last cs') = js_or (args req) (JObj [])"
    if "legacy_post_command cfg now req cs = (CommandReceived i, cs')" for i cs'
    using legacy_regular[OF that] by (simp add: last_trim_snoc regular_commandObj_def)
  show ?thesis
    using role_aware coordinated regular sanitize_keys sanitize_keeps by simp
qed

theorem args_allow_list_only_for_coordinated_witness:
  "stored (fst (post_command cfg_open 1000 say_tagged initial))
   \<and> args (last (commands (snd (post_command cfg_open 1000 say_tagged initial))))
       = JObj [(''evil'', JNum 1)]
   \<and> legacy_post_command cfg_open 1000 coordinated_tagged []
       = (CoordinatedReceived 1000,
          [coordinated_commandObj 1000 coordinated_tagged (JObj [(''command'', JStr ''follow'')])])
   \<and> own_keys (args (last
         [coordinated_commandObj 1000 coordinated_tagged (JObj [(''command'', JStr ''follow'')])]))
       \<subseteq> set allowedKeys"
proof -
  have a: "stored (fst (post_command cfg_open 1000 say_tagged initial))"
    by (rule acceptable_stored[OF say_tagged_acceptable])
  have b: "legacy_post_command cfg_open 1000 coordinated_tagged []
       = (CoordinatedReceived 1000,
          [coordinated_commandObj 1000 coordinated_tagged (JObj [(''command'', JStr ''follow'')])])"
    by (simp add: legacy_defs handler_defs example_defs)
  from args_allow_list_only_for_coordinated[of cfg_open 1000 say_tagged initial] a
  have c: "args (last (commands (snd (post_command cfg_open 1000 say_tagged initial))))
           = js_or (args say_tagged) (JObj [])"
    by blast
  from args_allow_list_only_for_coordinated[of cfg_open 1000 coordinated_tagged initial "[]"] b
  have d: "own_keys (args (last
         [coordinated_commandObj 1000 coordinated_tagged (JObj [(''command'', JStr ''follow'')])]))
       \<subseteq> set allowedKeys"
    by blast
  from a b c d show ?thesis
    by (simp add: js_or_def example_defs)
qed

text \<open>
  C3 as worded fails on the role-aware server: a submission whose \<open>args\<close> carries the key
  \<open>evil\<close> is stored with that key.
\<close>

theorem args_not_allow_listed_counterexample:
  "\<not> own_keys (args (last (commands (snd (post_command cfg_open 1000 say_tagged initial)))))
       \<subseteq> set allowedKeys"
  by (simp add: handler_defs example_defs own_keys_def allowedKeys_def)

text \<open>
  C4. The record a stored submission appends carries as \<open>isAdminCommand\<close> the membership
  of the submitted name in the authorized-name set at that moment. Whatever happens
  afterwards (submissions, registrations that change roles, polls, cleanups), every record
  found in the log is a record of the earlier log as it was, or one written since, with
  the flag it got when it was written.
\<close>

theorem isAdminCommand_fixed_at_write:
  "(stored (fst (post_command cfg now req s)) \<longrightarrow>
      written s now req (last (commands (snd (post_command cfg now req s)))))
   \<and> (\<forall>c \<in> set (commands (run conv cfg s evs)).
        c \<in> set (commands s)
        \<or> (\<exists>pre now' req' post.
              evs = pre @ Post now' req' # post \<and> written (run conv cfg s pre) now' req' c))"
  using stored_written run_commands by blast

theorem isAdminCommand_fixed_at_write_witness:
  "stored (fst (post_command cfg_open 1000 (bring (JNum 1000)) admin_registered))
   \<and> written admin_registered 1000 (bring (JNum 1000))
       (last (commands (snd (post_command cfg_open 1000 (bring (JNum 1000)) admin_registered))))
   \<and> isAdminCommand
       (last (commands (snd (post_command cfg_open 1000 (bring (JNum 1000)) admin_registered))))
   \<and> commands (run no_numbers cfg_open
         (admin_registered\<lparr>commands := [admin_commandObj 1000 (bring (JNum 1000))]\<rparr>)
         [Post 2000 register_namesake])
       = [admin_commandObj 1000 (bring (JNum 1000))]"
proof -
  let ?req = "bring (JNum 1000)"
  have a: "stored (fst (post_command cfg_open 1000 ?req admin_registered))"
    by (simp add: bring_distributed stored_def)
  from isAdminCommand_fixed_at_write[of cfg_open 1000 ?req admin_registered no_numbers "[]"] a
  have w: "written admin_registered 1000 ?req
             (last (commands (snd (post_command cfg_open 1000 ?req admin_registered))))"
    by blast
  have f: "isAdminCommand (last (commands (snd (post_command cfg_open 1000 ?req admin_registered))))"
    by (simp add: bring_distributed admin_commandObj_def)
  have r: "commands (run no_numbers cfg_open (admin_registered\<lparr>commands := [admin_commandObj 1000 ?req]\<rparr>)
             [Post 2000 register_namesake])
           = [admin_commandObj 1000 ?req]"
    by (simp add: handler_defs example_defs)
  from a w f r show ?thesis by blast
qed

text \<open>
  C5. The claim bounds the log by 100 records after every submission. Here 100 stored
  submissions fill the log, and then \<open>B\<close> submits a command that is an object with an own
  \<open>toString\<close> property. The alt branch pushes the record, the log line that converts
  \<open>command\<close> to a string throws, the answer is 500 and the trim is skipped: the log holds
  101 records. The regular branch of the legacy variant does the same.
\<close>

theorem throwing_submission_exceeds_capacity:
  "length (commands (run conv cfg_open initial (post_events (replicate 100 (1000, say_tagged)))))
   = 100
   \<and> fst (post_command cfg_open 2000 say_unprintable
            (run conv cfg_open initial (post_events (replicate 100 (1000, say_tagged)))))
     = InternalServerError
   \<and> length (commands (snd (post_command cfg_open 2000 say_unprintable
                (run conv cfg_open initial (post_events (replicate 100 (1000, say_tagged)))))))
     = 101
   \<and> length (legacy_run cfg_open [] (replicate 100 (1000, say_tagged))) = 100
   \<and> fst (legacy_post_command cfg_open 2000 say_unprintable
            (legacy_run cfg_open [] (replicate 100 (1000, say_tagged))))
     = InternalServerError
   \<and> length (snd (legacy_post_command cfg_open 2000 say_unprintable
                (legacy_run cfg_open [] (replicate 100 (1000, say_tagged)))))
     = 101"
proof -
  let ?ps = "replicate 100 (1000 :: int, say_tagged)"
  let ?S = "run conv cfg_open initial (post_events ?ps)"
  let ?L = "legacy_run cfg_open [] ?ps"
  have ne: "?ps \<noteq> []"
    by simp
  have "all_stored cfg_open initial ?ps"
    by (rule all_stored_replicate[OF say_tagged_acceptable])
  from run_posts_state[OF this ne, of conv]
  have S: "?S = initial\<lparr>commands := replicate 100 (alt_commandObj 1000 say_tagged)\<rparr>"
    by (simp add: appended_def trim_def initial_def set_has_def)
  have "legacy_all_stored cfg_open [] ?ps"
    by (rule legacy_all_stored_replicate[OF say_tagged_acceptable]) (simp add: example_defs)
  from legacy_run_posts[OF this ne]
  have L: "?L = replicate 100 (regular_commandObj 1000 say_tagged)"
    by (simp add: legacy_appended_def trim_def example_defs)
  have request: "validateApiKey cfg_open (apiKey say_unprintable) (query_apiKey say_unprintable)"
    "truthy (scriptId say_unprintable)" "truthy (playerId say_unprintable)"
    "truthy (command say_unprintable)"
    "\<not> strict_eq (command say_unprintable) (JStr ''register'')"
    "\<not> strict_eq (command say_unprintable) (JStr ''coordinated'')"
    "to_string_throws (command say_unprintable)"
    by (simp_all add: validateApiKey_def REQUIRE_API_KEY_def example_defs)
  have alt: "\<not> set_has (authorizedUsers ?S) (playerName say_unprintable)"
    unfolding S by (simp add: initial_def set_has_def)
  from throwing_alt_submission[OF request(1,2,3,4,5) alt request(7), of 2000]
  have P: "post_command cfg_open 2000 say_unprintable ?S
           = (InternalServerError, ?S\<lparr>commands := commands ?S @ [alt_commandObj 2000 say_unprintable]\<rparr>)" .
  from legacy_throwing_regular_submission[OF request(1,2,3,4,6,7), of 2000 ?L]
  have Q: "legacy_post_command cfg_open 2000 say_unprintable ?L
           = (InternalServerError, ?L @ [regular_commandObj 2000 say_unprintable])" .
  have lenS: "length (commands ?S) = 100"
    by (simp add: S)
  have lenL: "length ?L = 100"
    by (simp add: L)
  show ?thesis
    unfolding P Q using lenS lenL by simp
qed

theorem throwing_submission_exceeds_capacity_witness:
  "fst (post_command cfg_open 2000 say_unprintable
          (run no_numbers cfg_open initial (post_events (replicate 100 (1000, say_tagged)))))
   = InternalServerError
   \<and> 100 < length (commands (snd (post_command cfg_open 2000 say_unprintable
                (run no_numbers cfg_open initial (post_events (replicate 100 (1000, say_tagged)))))))
   \<and> 100 < length (snd (legacy_post_command cfg_open 2000 say_unprintable
                (legacy_run cfg_open [] (replicate 100 (1000, say_tagged)))))"
  using throwing_submission_exceeds_capacity[of no_numbers] by simp

text \<open>
  C6. The claim has no record with a timestamp below \<open>now - 300000\<close> left after a cleanup
  at instant \<open>now\<close>. Here the log holds the admin's \<open>bring\<close> with timestamp 1000 and \<open>D\<close>'s
  submission with the timestamp \<open>{toString: 1}\<close>. The cleanup at instant 400000 throws on
  the second record's comparison, \<open>commands\<close> is not assigned, and the record with
  timestamp 1000, below the cutoff 100000, is still in the log. The legacy cleanup does the
  same.
\<close>

theorem cleanup_throws_on_unreadable_timestamp:
  "run conv cfg_open initial
     [Post 0 register_admin, Post 1000 (bring (JNum 1000)), Post 1500 say_unreadable]
   = beside_unreadable (JNum 1000)
   \<and> cleanup conv 400000 (beside_unreadable (JNum 1000)) = None
   \<and> js_lt conv (timestamp (admin_commandObj 1000 (bring (JNum 1000)))) (400000 - 300000) = Some True
   \<and> admin_commandObj 1000 (bring (JNum 1000))
       \<in> set (commands (step conv cfg_open (beside_unreadable (JNum 1000)) (Cleanup 400000)))
   \<and> legacy_run cfg_open [] [(1000, bring (JNum 1000)), (1500, say_unreadable)]
     = legacy_beside_unreadable (JNum 1000)
   \<and> legacy_cleanup conv 400000 (legacy_beside_unreadable (JNum 1000)) = None
   \<and> js_lt conv (timestamp (regular_commandObj 1000 (bring (JNum 1000)))) (400000 - 300000)
     = Some True"
proof -
  have a: "cleanup conv 400000 (beside_unreadable (JNum 1000)) = None"
    by (rule cleanup_throws[of "alt_commandObj 1500 say_unreadable"])
       (simp_all add: beside_unreadable_def alt_commandObj_def say_unreadable_throws)
  have b: "js_lt conv (timestamp (admin_commandObj 1000 (bring (JNum 1000)))) (400000 - 300000)
           = Some True"
    by (simp add: js_lt_def admin_commandObj_def bring_def submission_def)
  from a have c: "admin_commandObj 1000 (bring (JNum 1000))
       \<in> set (commands (step conv cfg_open (beside_unreadable (JNum 1000)) (Cleanup 400000)))"
    by (simp add: beside_unreadable_def)
  have d: "legacy_cleanup conv 400000 (legacy_beside_unreadable (JNum 1000)) = None"
    by (rule legacy_cleanup_throws[of "regular_commandObj 1500 say_unreadable"])
       (simp_all add: legacy_beside_unreadable_def regular_commandObj_def say_unreadable_throws)
  have e: "js_lt conv (timestamp (regular_commandObj 1000 (bring (JNum 1000)))) (400000 - 300000)
           = Some True"
    by (simp add: js_lt_def regular_commandObj_def bring_def submission_def)
  from beside_unreadable_run[of conv "JNum 1000"] legacy_beside_unreadable_run[of "JNum 1000"]
    a b c d e
  show ?thesis by blast
qed

theorem cleanup_throws_on_unreadable_timestamp_witness:
  "cleanup no_numbers 400000
     (run no_numbers cfg_open initial
        [Post 0 register_admin, Post 1000 (bring (JNum 1000)), Post 1500 say_unreadable])
   = None
   \<and> legacy_cleanup no_numbers 400000
       (legacy_run cfg_open [] [(1000, bring (JNum 1000)), (1500, say_unreadable)])
     = None"
  using cleanup_throws_on_unreadable_timestamp[of no_numbers] by simp

section \<open>Registration\<close>

text \<open>
  C7. A submission with command \<open>register\<close> leaves the command log as it was. It changes
  the registry at most by setting the entry of its sender id, every other id reading as
  before, and it changes the authorized-name set only when \<open>args.isAuthorized\<close> is
  truthy, by adding the sender's name.
\<close>

theorem register_frame:
  assumes "strict_eq (command req) (JStr ''register'')"
  shows "commands (snd (post_command cfg now req s)) = commands s
   \<and> (registeredUsers (snd (post_command cfg now req s)) = registeredUsers s
      \<or> (\<exists>auth. registeredUsers (snd (post_command cfg now req s))
                  = map_set (playerId req) (registry_entry now req auth) (registeredUsers s)))
   \<and> (\<forall>k. \<not> strict_eq (playerId req) k \<longrightarrow>
          map_get (registeredUsers (snd (post_command cfg now req s))) k
          = map_get (registeredUsers s) k)
   \<and> (authorizedUsers (snd (post_command cfg now req s)) = authorizedUsers s
      \<or> (\<exists>auth. property (args req) ''isAuthorized'' = Some auth \<and> truthy auth
            \<and> authorizedUsers (snd (post_command cfg now req s))
                = set_add (playerName req) (authorizedUsers s)))"
proof -
  from post_register[OF assms, of cfg now s] register_effect[of now req s]
  consider "snd (post_command cfg now req s) = s"
    | auth where "property (args req) ''isAuthorized'' = Some auth"
        "snd (post_command cfg now req s)
            = s\<lparr>registeredUsers := map_set (playerId req) (registry_entry now req auth) (registeredUsers s),
                 authorizedUsers := (if truthy auth then set_add (playerName req) (authorizedUsers s)
                                     else authorizedUsers s)\<rparr>"
    by auto
  then show ?thesis
  proof cases
    case 1
    then show ?thesis by simp
  next
    case 2
    show ?thesis
      unfolding 2(2) using 2(1) by (auto simp: map_get_map_set_other)
  qed
qed

theorem register_frame_witness:
  "strict_eq (command register_admin) (JStr ''register'')
   \<and> snd (post_command cfg_open 0 register_admin initial) = admin_registered
   \<and> commands (snd (post_command cfg_open 0 register_admin initial)) = commands initial
   \<and> map_get (registeredUsers (snd (post_command cfg_open 0 register_admin initial))) (JStr ''B'')
     = map_get (registeredUsers initial) (JStr ''B'')"
proof -
  have a: "strict_eq (command register_admin) (JStr ''register'')"
    by (simp add: example_defs)
  have b: "\<not> strict_eq (playerId register_admin) (JStr ''B'')"
    by (simp add: example_defs)
  have c: "snd (post_command cfg_open 0 register_admin initial) = admin_registered"
    by (simp add: handler_defs example_defs)
  from register_frame[OF a, of cfg_open 0 initial] a b c show ?thesis
    by blast
qed

text \<open>
  C8. No run of the server removes a name from the authorized-name set: the set after the
  run extends the set before it, whatever the events are, a registration with
  \<open>isAuthorized = false\<close> for the same or another id among them.
\<close>

theorem authorized_names_only_grow:
  "prefix (authorizedUsers s) (authorizedUsers (run conv cfg s evs))
   \<and> (\<forall>n \<in> set (authorizedUsers s). n \<in> set (authorizedUsers (run conv cfg s evs)))
   \<and> (set_has (authorizedUsers s) n \<longrightarrow> set_has (authorizedUsers (run conv cfg s evs)) n)"
proof -
  from run_authorized[of s conv cfg evs] obtain ys where
    ys: "authorizedUsers (run conv cfg s evs) = authorizedUsers s @ ys"
    by (auto simp: prefix_def)
  show ?thesis
    unfolding ys by (simp add: set_has_append)
qed

theorem authorized_names_only_grow_witness:
  "set_has (authorizedUsers admin_registered) (JStr ''Admin1'')
   \<and> map_get (registeredUsers (run no_numbers cfg_open admin_registered [Post 2000 register_namesake]))
       (JStr ''C'')
     = Some (registry_entry 2000 register_namesake (JBool False))
   \<and> set_has (authorizedUsers (run no_numbers cfg_open admin_registered [Post 2000 register_namesake]))
       (JStr ''Admin1'')"
proof -
  have a: "set_has (authorizedUsers admin_registered) (JStr ''Admin1'')"
    by (simp add: set_has_def example_defs)
  have b: "map_get (registeredUsers (run no_numbers cfg_open admin_registered [Post 2000 register_namesake]))
             (JStr ''C'')
           = Some (registry_entry 2000 register_namesake (JBool False))"
    by (simp add: handler_defs example_defs)
  from authorized_names_only_grow[of admin_registered no_numbers cfg_open "[Post 2000 register_namesake]"
      "JStr ''Admin1''"] a b
  show ?thesis by blast
qed

text \<open>
  C10, as amended. A registration that passes the API-key and required-field checks and
  whose \<open>args\<close> is absent or \<open>null\<close> is answered with the internal error, and the registry,
  the authorized-name set and the command log are left as they were.
\<close>

theorem register_without_args_is_rejected:
  assumes "validateApiKey cfg (apiKey req) (query_apiKey req)"
    and "truthy (scriptId req)" and "truthy (playerId req)"
    and "strict_eq (command req) (JStr ''register'')"
    and "args req = JUndefined \<or> args req = JNull"
  shows "post_command cfg now req s = (InternalServerError, s)"
proof -
  from assms(4) have "command req = JStr ''register''" by (rule strict_eq_eq)
  with assms show ?thesis
    by (auto simp: post_command_def register_def)
qed

theorem register_without_args_is_rejected_witness:
  "post_command cfg_open 5 (submission ''A'' ''Admin1'' ''register'' JUndefined JUndefined) initial
   = (InternalServerError, initial)"
  by (rule register_without_args_is_rejected) (simp_all add: handler_defs example_defs)

text \<open>
  C10 as worded fails for an \<open>args\<close> that is not an object but is neither absent nor
  \<open>null\<close>: with \<open>args = 5\<close> the read of \<open>isAuthorized\<close> gives \<open>undefined\<close>, the sender is
  registered and the answer is the success answer.
\<close>

theorem register_with_number_args_counterexample:
  "post_command cfg_open 5 (submission ''A'' ''Admin1'' ''register'' (JNum 5) JUndefined) initial
   \<noteq> (InternalServerError, initial)
   \<and> fst (post_command cfg_open 5 (submission ''A'' ''Admin1'' ''register'' (JNum 5) JUndefined) initial)
     = UserRegistered JUndefined
   \<and> map_get (registeredUsers
        (snd (post_command cfg_open 5 (submission ''A'' ''Admin1'' ''register'' (JNum 5) JUndefined) initial)))
        (JStr ''A'')
     \<noteq> map_get (registeredUsers initial) (JStr ''A'')"
  by (simp add: handler_defs example_defs)

end
